theory Spec2Isabelle
  imports Main "HOL-Library.Word"
begin

section \<open>The loopbackx module of GRUB: a virtual disk made of a chain of files\<close>

text \<open>
  This theory embeds \<^verbatim>\<open>grub-core/disk/loopbackx.c\<close>: the registry of loopback
  devices (\<^verbatim>\<open>loopback_list\<close>, \<^verbatim>\<open>last_id\<close>), the command that adds and removes
  devices, and the disk driver's \<^verbatim>\<open>open\<close> and \<^verbatim>\<open>read\<close>.

  The integer types come from GRUB headers that are not part of the sources at hand.
  The model is that of an LP64 target such as x86_64-efi: \<^verbatim>\<open>unsigned long\<close>,
  \<^verbatim>\<open>grub_size_t\<close>, \<^verbatim>\<open>grub_off_t\<close> and \<^verbatim>\<open>grub_disk_addr_t\<close> are 64-bit unsigned
  integers, and their arithmetic wraps around.
\<close>

subsection \<open>Types\<close>

type_synonym grub_uint8_t = "8 word"
type_synonym grub_size_t = "64 word"
type_synonym grub_off_t = "64 word"
type_synonym grub_disk_addr_t = "64 word"
type_synonym unsigned_long = "64 word"

text \<open>The members of \<^verbatim>\<open>grub_err_t\<close> that the module and the file layer use.\<close>

datatype grub_err_t =
    GRUB_ERR_NONE
  | GRUB_ERR_OUT_OF_MEMORY
  | GRUB_ERR_BAD_ARGUMENT
  | GRUB_ERR_BAD_DEVICE
  | GRUB_ERR_UNKNOWN_DEVICE
  | GRUB_ERR_FILE_NOT_FOUND
  | GRUB_ERR_FILE_READ_ERROR
  | GRUB_ERR_READ_ERROR
  | GRUB_ERR_OUT_OF_RANGE
  | GRUB_ERR_NOT_IMPLEMENTED_YET
  | GRUB_ERR_IO

text \<open>
  The macros of \<^verbatim>\<open>grub/disk.h\<close> that the module uses are parameters of the model:
  the sector size is \<open>2 ^ GRUB_DISK_SECTOR_BITS\<close>.
\<close>

record grub_disk_config =
  GRUB_DISK_SECTOR_BITS :: nat
  GRUB_DISK_CACHE_BITS :: nat

definition GRUB_DISK_SECTOR_SIZE :: "grub_disk_config \<Rightarrow> 64 word" where
  "GRUB_DISK_SECTOR_SIZE cfg = push_bit (GRUB_DISK_SECTOR_BITS cfg) 1"

text \<open>
  Modelled from the spec: the unknown-length sentinel of the file layer
  (\<^verbatim>\<open>GRUB_FILE_SIZE_UNKNOWN\<close>) and the unknown-size sentinel of the disk layer
  (\<^verbatim>\<open>GRUB_DISK_SIZE_UNKNOWN\<close>), both declared in headers that are missing here;
  they are the all-ones 64-bit value.
\<close>

definition GRUB_FILE_SIZE_UNKNOWN :: grub_off_t where
  "GRUB_FILE_SIZE_UNKNOWN = - 1"

definition GRUB_DISK_SIZE_UNKNOWN :: "64 word" where
  "GRUB_DISK_SIZE_UNKNOWN = - 1"

definition MAXCHAINFILES :: nat where
  "MAXCHAINFILES = 4"

text \<open>
  \<^verbatim>\<open>struct grub_file\<close>, as far as the module touches it: the read position and the
  size. The bytes of the file and the error that the file system raises when the file is
  read (\<open>GRUB_ERR_NONE\<close>: it raises none) stand for the file system behind the handle.
\<close>

record grub_file =
  offset :: grub_off_t
  file_size :: grub_off_t
  contents :: "grub_uint8_t list"
  fs_read_err :: grub_err_t

text \<open>A \<^verbatim>\<open>grub_file_t\<close> is a pointer to an open file; \<open>None\<close> is the null pointer.\<close>

type_synonym grub_file_t = nat

text \<open>
  \<^verbatim>\<open>struct grub_loopbackx\<close>. The array \<^verbatim>\<open>files[0 .. nfiles)\<close> is the list \<open>files\<close>,
  \<^verbatim>\<open>nfiles\<close> is its length, and the \<^verbatim>\<open>next\<close> pointer is the order of \<open>loopback_list\<close>.
  The field \<^verbatim>\<open>id\<close> is \<open>dev_id\<close> here, and the field \<^verbatim>\<open>size\<close> of a file is \<open>file_size\<close>.
\<close>

record grub_loopbackx =
  devname :: string
  files :: "grub_file_t list"
  dev_id :: unsigned_long

text \<open>
  The state of the machine: the two static variables of the module, \<^verbatim>\<open>grub_errno\<close>
  with the message of the last error, the table of the open files (what the pointers
  point to), and the memory that a read writes to, addressed relative to the start of the
  caller's buffer.
\<close>

record state =
  loopback_list :: "grub_loopbackx list"
  last_id :: unsigned_long
  grub_errno :: grub_err_t
  grub_errmsg :: string
  open_files :: "(grub_file_t \<times> grub_file) list"
  memory :: "nat \<Rightarrow> grub_uint8_t"

text \<open>
  What a call finds outside the module: the file system that \<^verbatim>\<open>grub_file_open\<close>
  consults, and whether \<^verbatim>\<open>grub_malloc\<close> and \<^verbatim>\<open>grub_strdup\<close> find memory.
\<close>

record environment =
  grub_fs :: "string \<Rightarrow> grub_err_t + grub_file"
  malloc_fails :: bool
  strdup_fails :: bool

subsection \<open>The error and file layers\<close>

text \<open>\<^verbatim>\<open>grub_error\<close> records the error and returns its code.\<close>

definition grub_error :: "grub_err_t \<Rightarrow> string \<Rightarrow> state \<Rightarrow> grub_err_t \<times> state" where
  "grub_error e msg s = (e, s\<lparr>grub_errno := e, grub_errmsg := msg\<rparr>)"

text \<open>A pointer that no open file has: above every pointer of the table, and not null.\<close>

definition fresh_file :: "(grub_file_t \<times> grub_file) list \<Rightarrow> grub_file_t" where
  "fresh_file tbl = Suc (foldr max (map fst tbl) 0)"

text \<open>
  Modelled from the spec: \<^verbatim>\<open>grub_file_open\<close> of the file layer, which is not part of
  the sources (\<open>open(path, flags) -> FileHandle | Error\<close>). A failure sets
  \<^verbatim>\<open>grub_errno\<close> and returns the null pointer; a success returns the pointer to a new
  open file.
\<close>

definition grub_file_open :: "environment \<Rightarrow> string \<Rightarrow> state \<Rightarrow> grub_file_t option \<times> state" where
  "grub_file_open env path s =
     (case grub_fs env path of
        Inl e \<Rightarrow> (None, s\<lparr>grub_errno := e\<rparr>)
      | Inr f \<Rightarrow>
          (let h = fresh_file (open_files s)
           in (Some h, s\<lparr>open_files := (h, f) # open_files s\<rparr>)))"

text \<open>
  Modelled from the spec: \<^verbatim>\<open>grub_file_close\<close> of the file layer (\<open>close(handle)\<close>):
  the file is open no more.
\<close>

definition grub_file_close :: "grub_file_t \<Rightarrow> state \<Rightarrow> state" where
  "grub_file_close h s = s\<lparr>open_files := filter (\<lambda>(k, f). k \<noteq> h) (open_files s)\<rparr>"

text \<open>
  Modelled from the spec: \<^verbatim>\<open>grub_file_seek\<close> of the file layer
  (\<open>seek(handle, offset)\<close>) sets the read position.
\<close>

definition grub_file_seek :: "grub_file \<Rightarrow> grub_off_t \<Rightarrow> grub_file" where
  "grub_file_seek f off = f\<lparr>offset := off\<rparr>"

text \<open>
  Modelled from the spec: \<^verbatim>\<open>grub_file_read\<close> of the file layer
  (\<open>read(handle, buffer, length) -> bytes_read | Error\<close>). When the file system raises
  an error, that error is the result and nothing is delivered. Otherwise the bytes from
  the read position on are delivered, \<open>len\<close> of them at most and none past the end of the
  file, and the read position moves behind them.
\<close>

definition grub_file_read :: "grub_file \<Rightarrow> grub_size_t \<Rightarrow> grub_err_t \<times> grub_uint8_t list \<times> grub_file" where
  "grub_file_read f len =
     (if fs_read_err f \<noteq> GRUB_ERR_NONE then (fs_read_err f, [], f)
      else
        (let len' = (if len > file_size f - offset f then file_size f - offset f else len);
             bytes = take (unat len') (drop (unat (offset f)) (contents f))
         in (GRUB_ERR_NONE, bytes, f\<lparr>offset := offset f + of_nat (length bytes)\<rparr>)))"

text \<open>Dereferencing a file pointer, and storing through it.\<close>

definition file_at :: "state \<Rightarrow> grub_file_t \<Rightarrow> grub_file option" where
  "file_at s h = map_of (open_files s) h"

definition file_store :: "grub_file_t \<Rightarrow> grub_file \<Rightarrow> state \<Rightarrow> state" where
  "file_store h f s =
     s\<lparr>open_files := map (\<lambda>(k, g). if k = h then (k, f) else (k, g)) (open_files s)\<rparr>"

text \<open>Writing bytes to memory from an address on (\<^verbatim>\<open>grub_memset\<close> writes zeros).\<close>

definition write_bytes :: "(nat \<Rightarrow> grub_uint8_t) \<Rightarrow> nat \<Rightarrow> grub_uint8_t list \<Rightarrow> nat \<Rightarrow> grub_uint8_t" where
  "write_bytes m a bs = (\<lambda>i. if a \<le> i \<and> i < a + length bs then bs ! (i - a) else m i)"

definition grub_memset :: "nat \<Rightarrow> grub_uint8_t \<Rightarrow> grub_size_t \<Rightarrow> state \<Rightarrow> state" where
  "grub_memset a c n s = s\<lparr>memory := write_bytes (memory s) a (replicate (unat n) c)\<rparr>"

subsection \<open>The registry and the command\<close>

text \<open>
  The search loop of \<^verbatim>\<open>delete_loopbackx\<close>: the first device of that name, and the
  list without it.
\<close>

fun unlink_dev :: "string \<Rightarrow> grub_loopbackx list \<Rightarrow> (grub_loopbackx \<times> grub_loopbackx list) option" where
  "unlink_dev name [] = None"
| "unlink_dev name (dev # rest) =
     (if devname dev = name then Some (dev, rest)
      else (case unlink_dev name rest of
              None \<Rightarrow> None
            | Some (d, rest') \<Rightarrow> Some (d, dev # rest')))"

text \<open>\<^verbatim>\<open>delete_loopbackx\<close>: the files are closed from the last to the first.\<close>

definition delete_loopbackx :: "string \<Rightarrow> state \<Rightarrow> grub_err_t \<times> state" where
  "delete_loopbackx name s =
     (case unlink_dev name (loopback_list s) of
        None \<Rightarrow> grub_error GRUB_ERR_BAD_DEVICE ''device not found'' s
      | Some (dev, rest) \<Rightarrow>
          (GRUB_ERR_NONE, fold grub_file_close (rev (files dev)) (s\<lparr>loopback_list := rest\<rparr>)))"

text \<open>
  The loop that opens \<^verbatim>\<open>args[1 .. argc)\<close>: it stops at the first file that does not
  open. The result tells whether all opened, and holds \<^verbatim>\<open>files[0 .. nfiles)\<close>.
\<close>

fun open_chain :: "environment \<Rightarrow> string list \<Rightarrow> grub_file_t list \<Rightarrow> state \<Rightarrow> bool \<times> grub_file_t list \<times> state" where
  "open_chain env [] fs s = (True, fs, s)"
| "open_chain env (path # paths) fs s =
     (case grub_file_open env path s of
        (None, s') \<Rightarrow> (False, fs, s')
      | (Some file, s') \<Rightarrow> open_chain env paths (fs @ [file]) s')"

text \<open>The label \<^verbatim>\<open>fail\<close>: the error is read first, then the opened files are closed.\<close>

definition cmd_fail :: "grub_file_t list \<Rightarrow> state \<Rightarrow> grub_err_t \<times> state" where
  "cmd_fail fs s = (grub_errno s, fold grub_file_close fs s)"

text \<open>
  \<^verbatim>\<open>grub_cmd_loopbackx\<close>. \<open>set_d\<close> is \<^verbatim>\<open>state[0].set\<close> (the option \<^verbatim>\<open>-d\<close>), \<open>args\<close> are
  the positional arguments and \<^verbatim>\<open>argc\<close> is their number.
\<close>

definition grub_cmd_loopbackx :: "environment \<Rightarrow> bool \<Rightarrow> string list \<Rightarrow> state \<Rightarrow> grub_err_t \<times> state" where
  "grub_cmd_loopbackx env set_d args s =
     (if length args < 1 then grub_error GRUB_ERR_BAD_ARGUMENT ''device name required'' s
      else if set_d then delete_loopbackx (args ! 0) s
      else if length args < 2 then grub_error GRUB_ERR_BAD_ARGUMENT ''filename expected'' s
      else if length args > MAXCHAINFILES + 1
        then grub_error GRUB_ERR_BAD_ARGUMENT ''too many filenames expected'' s
      else if list_ex (\<lambda>dev. devname dev = args ! 0) (loopback_list s)
        then grub_error GRUB_ERR_BAD_ARGUMENT ''device name already exists'' s
      else
        (case open_chain env (tl args) [] s of
           (False, fs, s1) \<Rightarrow> cmd_fail fs s1
         | (True, fs, s1) \<Rightarrow>
             if malloc_fails env
               then cmd_fail fs (s1\<lparr>grub_errno := GRUB_ERR_OUT_OF_MEMORY\<rparr>)
             else if strdup_fails env
               then cmd_fail fs (s1\<lparr>grub_errno := GRUB_ERR_OUT_OF_MEMORY\<rparr>)
             else
               (GRUB_ERR_NONE,
                s1\<lparr>last_id := last_id s1 + 1,
                   loopback_list :=
                     \<lparr>devname = args ! 0, files = fs, dev_id = last_id s1\<rparr> # loopback_list s1\<rparr>)))"

subsection \<open>The disk driver\<close>

text \<open>
  The fields of \<^verbatim>\<open>struct grub_disk\<close> that the driver sets (the field \<^verbatim>\<open>id\<close> is
  \<open>disk_id\<close> here). \<^verbatim>\<open>data\<close> points to the device.
\<close>

record grub_disk =
  total_sectors :: "64 word"
  max_agglomerate :: "32 word"
  disk_id :: unsigned_long
  data :: "grub_loopbackx option"

text \<open>
  The loop of \<^verbatim>\<open>grub_loopbackx_open\<close> over \<^verbatim>\<open>files[i]\<close>, with the variables
  \<^verbatim>\<open>disk->total_sectors\<close> (here \<open>ts\<close>) and \<^verbatim>\<open>alldata\<close>; at a file of unknown size it
  breaks.
  \<open>None\<close> is the dereference of a pointer to no open file.
\<close>

fun size_loop :: "state \<Rightarrow> grub_file_t list \<Rightarrow> 64 word \<Rightarrow> grub_size_t \<Rightarrow> (64 word \<times> grub_size_t) option" where
  "size_loop s [] ts alldata = Some (ts, alldata)"
| "size_loop s (fh # fs) ts alldata =
     (case file_at s fh of
        None \<Rightarrow> None
      | Some f \<Rightarrow>
          if file_size f = GRUB_FILE_SIZE_UNKNOWN then Some (GRUB_DISK_SIZE_UNKNOWN, alldata)
          else size_loop s fs ts (alldata + file_size f))"

text \<open>
  \<^verbatim>\<open>grub_loopbackx_open\<close>. The result is the error code, the state and the disk. The
  shift count of \<^verbatim>\<open>max_agglomerate\<close> is not negative for the values of GRUB.
\<close>

definition grub_loopbackx_open :: "grub_disk_config \<Rightarrow> string \<Rightarrow> grub_disk \<Rightarrow> state \<Rightarrow> (grub_err_t \<times> state \<times> grub_disk) option" where
  "grub_loopbackx_open cfg name disk s =
     (case find (\<lambda>dev. devname dev = name) (loopback_list s) of
        None \<Rightarrow>
          (let (e, s') = grub_error GRUB_ERR_UNKNOWN_DEVICE ''can't open device'' s
           in Some (e, s', disk))
      | Some dev \<Rightarrow>
          (case size_loop s (files dev) 0 0 of
             None \<Rightarrow> None
           | Some (ts, alldata) \<Rightarrow>
               (let ts' = (if ts \<noteq> GRUB_DISK_SIZE_UNKNOWN
                           then (alldata + GRUB_DISK_SECTOR_SIZE cfg - 1) div GRUB_DISK_SECTOR_SIZE cfg
                           else ts)
                in Some (GRUB_ERR_NONE, s,
                         disk\<lparr>total_sectors := ts',
                              max_agglomerate :=
                                push_bit (29 - GRUB_DISK_SECTOR_BITS cfg - GRUB_DISK_CACHE_BITS cfg) 1,
                              disk_id := dev_id dev,
                              data := Some dev\<rparr>))))"

text \<open>
  The loop of \<^verbatim>\<open>grub_loopbackx_read\<close> over \<^verbatim>\<open>files[i]\<close>, with the variables
  \<^verbatim>\<open>spos\<close>, \<^verbatim>\<open>total\<close> (here \<open>tot\<close>) and \<^verbatim>\<open>buf\<close>. The results of \<^verbatim>\<open>grub_file_seek\<close> and
  \<^verbatim>\<open>grub_file_read\<close> are not looked at: an error of the read stays in
  \<^verbatim>\<open>grub_errno\<close>, and the loop goes on.
\<close>

fun read_chain :: "grub_file_t list \<Rightarrow> grub_size_t \<Rightarrow> grub_size_t \<Rightarrow> nat \<Rightarrow> state \<Rightarrow> (grub_size_t \<times> nat \<times> state) option" where
  "read_chain [] spos tot buf s = Some (tot, buf, s)"
| "read_chain (fh # fs) spos tot buf s =
     (if tot = 0 then Some (tot, buf, s)
      else
        (case file_at s fh of
           None \<Rightarrow> None
         | Some f \<Rightarrow>
             if spos < file_size f then
               (let epos = spos + file_size f;
                    n = (if epos > file_size f then file_size f - spos else tot);
                    r = grub_file_read (grub_file_seek f spos) n;
                    s' = file_store fh (snd (snd r))
                           (s\<lparr>memory := write_bytes (memory s) buf (fst (snd r)),
                              grub_errno := (if fst r \<noteq> GRUB_ERR_NONE then fst r else grub_errno s)\<rparr>)
                in read_chain fs 0 (tot - n) (buf + unat n) s')
             else read_chain fs (spos - file_size f) tot buf s))"

text \<open>
  \<^verbatim>\<open>grub_loopbackx_read\<close>; \<open>nsec\<close> is the parameter \<^verbatim>\<open>size\<close>, the number of sectors, and
  \<open>buf\<close> is the address of the buffer.
\<close>

definition grub_loopbackx_read :: "grub_disk_config \<Rightarrow> grub_disk \<Rightarrow> grub_disk_addr_t \<Rightarrow> grub_size_t \<Rightarrow> nat \<Rightarrow> state \<Rightarrow> (grub_err_t \<times> state) option" where
  "grub_loopbackx_read cfg disk sector nsec buf s =
     (case data disk of
        None \<Rightarrow> None
      | Some dev \<Rightarrow>
          (let spos = push_bit (GRUB_DISK_SECTOR_BITS cfg) sector;
               tot = push_bit (GRUB_DISK_SECTOR_BITS cfg) nsec
           in (case read_chain (files dev) spos tot buf s of
                 None \<Rightarrow> None
               | Some (tot', buf', s') \<Rightarrow>
                   if grub_errno s' \<noteq> GRUB_ERR_NONE then Some (grub_errno s', s')
                   else if tot' > 0 then Some (GRUB_ERR_NONE, grub_memset buf' 0 tot' s')
                   else Some (GRUB_ERR_NONE, s'))))"


text \<open>\<^verbatim>\<open>grub_loopbackx_write\<close>.\<close>

definition grub_loopbackx_write :: "state \<Rightarrow> grub_err_t \<times> state" where
  "grub_loopbackx_write s =
     grub_error GRUB_ERR_NOT_IMPLEMENTED_YET ''loopback write is not supported'' s"

subsection \<open>Sequences of calls\<close>

text \<open>
  The ids given to the devices that a sequence of calls of the command creates, in the
  order of creation. A call has created a device when the list has grown; the new device
  is its head.
\<close>

fun created_ids :: "(environment \<times> bool \<times> string list) list \<Rightarrow> state \<Rightarrow> unsigned_long list" where
  "created_ids [] s = []"
| "created_ids ((env, set_d, args) # calls) s =
     (let s' = snd (grub_cmd_loopbackx env set_d args s)
      in (if length (loopback_list s') > length (loopback_list s)
          then [dev_id (hd (loopback_list s'))] else [])
         @ created_ids calls s')"

subsection \<open>Concrete states and files\<close>

text \<open>The state when the module has been loaded: no device, \<^verbatim>\<open>last_id = 0\<close>.\<close>

definition module_init :: state where
  "module_init =
     \<lparr>loopback_list = [], last_id = 0, grub_errno = GRUB_ERR_NONE, grub_errmsg = [],
      open_files = [], memory = (\<lambda>a. 0xAA)\<rparr>"

text \<open>A file of \<open>n\<close> bytes, each of them \<open>b\<close>, that reads without error.\<close>

definition plain_file :: "nat \<Rightarrow> grub_uint8_t \<Rightarrow> grub_file" where
  "plain_file n b =
     \<lparr>offset = 0, file_size = of_nat n, contents = replicate n b, fs_read_err = GRUB_ERR_NONE\<rparr>"

text \<open>A file system with two files of one sector each; no other path opens.\<close>

definition two_files_env :: environment where
  "two_files_env =
     \<lparr>grub_fs = (\<lambda>path. if path = ''a.img'' then Inr (plain_file 512 0x11)
                        else if path = ''b.img'' then Inr (plain_file 512 0x22)
                        else Inl GRUB_ERR_FILE_NOT_FOUND),
      malloc_fails = False, strdup_fails = False\<rparr>"

text \<open>The values of GRUB: sectors of 512 bytes. And bytes as sectors, for small examples.\<close>

definition grub_config :: grub_disk_config where
  "grub_config = \<lparr>GRUB_DISK_SECTOR_BITS = 9, GRUB_DISK_CACHE_BITS = 6\<rparr>"

definition byte_addressed :: grub_disk_config where
  "byte_addressed = \<lparr>GRUB_DISK_SECTOR_BITS = 0, GRUB_DISK_CACHE_BITS = 0\<rparr>"

text \<open>A file with the given bytes, and the same file on a medium that cannot be read.\<close>

definition bytes_file :: "grub_uint8_t list \<Rightarrow> grub_file" where
  "bytes_file bs =
     \<lparr>offset = 0, file_size = of_nat (length bs), contents = bs, fs_read_err = GRUB_ERR_NONE\<rparr>"

definition unreadable_file :: "grub_uint8_t list \<Rightarrow> grub_file" where
  "unreadable_file bs = (bytes_file bs)\<lparr>fs_read_err := GRUB_ERR_READ_ERROR\<rparr>"

definition ten_bytes :: "grub_uint8_t list" where
  "ten_bytes = [0, 1, 2, 3, 4, 5, 6, 7, 8, 9]"

definition twenty_bytes :: "grub_uint8_t list" where
  "twenty_bytes = [100, 101, 102, 103, 104, 105, 106, 107, 108, 109,
                   110, 111, 112, 113, 114, 115, 116, 117, 118, 119]"

text \<open>
  A file system with a file of 10 bytes, one of 20 bytes, a file of 10 bytes that
  cannot be read, a file of \<open>2 ^ 63\<close> bytes, a file of four sectors, and a file whose
  size is not known.
\<close>

definition small_files_env :: environment where
  "small_files_env =
     \<lparr>grub_fs = (\<lambda>path. if path = ''ten.img'' then Inr (bytes_file ten_bytes)
                        else if path = ''twenty.img'' then Inr (bytes_file twenty_bytes)
                        else if path = ''bad.img'' then Inr (unreadable_file ten_bytes)
                        else if path = ''huge.img'' then Inr (plain_file (2 ^ 63) 0)
                        else if path = ''four.img'' then Inr (plain_file 2048 0x44)
                        else if path = ''pipe.img''
                          then Inr ((bytes_file ten_bytes)\<lparr>file_size := GRUB_FILE_SIZE_UNKNOWN\<rparr>)
                        else Inl GRUB_ERR_FILE_NOT_FOUND),
      malloc_fails = False, strdup_fails = False\<rparr>"

text \<open>The state after the module has been loaded and the device \<open>hd\<close> has been created.\<close>

definition with_hd :: "environment \<Rightarrow> string list \<Rightarrow> state" where
  "with_hd env paths = snd (grub_cmd_loopbackx env False (''hd'' # paths) module_init)"

text \<open>The disk that \<^verbatim>\<open>grub_loopbackx_open\<close> makes of the device \<open>hd\<close>.\<close>

definition no_disk :: grub_disk where
  "no_disk = \<lparr>total_sectors = 0, max_agglomerate = 0, disk_id = 0, data = None\<rparr>"

definition hd_disk :: "grub_disk_config \<Rightarrow> state \<Rightarrow> grub_disk" where
  "hd_disk cfg s =
     (case grub_loopbackx_open cfg ''hd'' no_disk s of
        Some (e, s', disk) \<Rightarrow> disk
      | None \<Rightarrow> no_disk)"

text \<open>The bytes of the buffer at address 0 after a read, with the error code.\<close>

definition delivered :: "nat \<Rightarrow> (grub_err_t \<times> state) option \<Rightarrow> (grub_err_t \<times> grub_uint8_t list) option" where
  "delivered n r = map_option (\<lambda>(e, s). (e, map (memory s) [0..<n])) r"

text \<open>Creating a device from one file and deleting it again.\<close>

definition create_delete_cycle :: "environment \<Rightarrow> string \<Rightarrow> string \<Rightarrow> (environment \<times> bool \<times> string list) list" where
  "create_delete_cycle env name path = [(env, False, [name, path]), (env, True, [name])]"

subsection \<open>Opening and closing the files of a chain\<close>

lemma fresh_file_above: "(k, f) \<in> set tbl \<Longrightarrow> k < fresh_file tbl"
  unfolding fresh_file_def by (induction tbl) (auto simp: less_Suc_eq_le max_def)

lemma fresh_file_notin: "fresh_file tbl \<notin> fst ` set tbl"
  using fresh_file_above by fastforce

lemma fold_grub_file_close:
  "fold grub_file_close hs s = s\<lparr>open_files := filter (\<lambda>(k, f). k \<notin> set hs) (open_files s)\<rparr>"
proof (induction hs arbitrary: s)
  case Nil
  then show ?case by simp
next
  case (Cons h hs)
  have "filter (\<lambda>(k, f). k \<notin> set hs) (filter (\<lambda>(k, f). k \<noteq> h) tbl)
          = filter (\<lambda>(k, f). k \<notin> set (h # hs)) tbl" for tbl :: "(grub_file_t \<times> grub_file) list"
    by (induction tbl) auto
  with Cons show ?case by (simp add: grub_file_close_def)
qed

lemma close_opened:
  assumes "fst ` set new \<inter> fst ` set tbl = {}"
  shows "filter (\<lambda>(k, f). k \<notin> set (map fst new)) (rev new @ tbl) = tbl"
proof -
  have "filter (\<lambda>(k, f). k \<notin> fst ` set new) (rev new) = []"
    by (force simp: filter_empty_conv)
  moreover have "filter (\<lambda>(k, f). k \<notin> fst ` set new) tbl = tbl"
    using assms by (force simp: filter_id_conv)
  ultimately show ?thesis by simp
qed

lemma open_chain_shape:
  "\<exists>ok new e. open_chain env paths fs s
       = (ok, fs @ map fst new, s\<lparr>open_files := rev new @ open_files s, grub_errno := e\<rparr>)
     \<and> fst ` set new \<inter> fst ` set (open_files s) = {}
     \<and> (ok \<longrightarrow> e = grub_errno s \<and> length new = length paths)"
proof (induction paths arbitrary: fs s)
  case Nil
  have "open_chain env [] fs s = (True, fs @ map fst [], s\<lparr>open_files := rev [] @ open_files s, grub_errno := grub_errno s\<rparr>)"
    by simp
  then show ?case
    by (intro exI [of _ True] exI [of _ "[]"] exI [of _ "grub_errno s"]) simp
next
  case (Cons p ps)
  show ?case
  proof (cases "grub_fs env p")
    case (Inl e)
    then have "open_chain env (p # ps) fs s = (False, fs @ map fst [], s\<lparr>open_files := rev [] @ open_files s, grub_errno := e\<rparr>)"
      by (simp add: grub_file_open_def)
    then show ?thesis
      by (intro exI [of _ False] exI [of _ "[]"] exI [of _ e]) simp
  next
    case (Inr f)
    define h where "h = fresh_file (open_files s)"
    define s1 where "s1 = s\<lparr>open_files := (h, f) # open_files s\<rparr>"
    have step: "open_chain env (p # ps) fs s = open_chain env ps (fs @ [h]) s1"
      using Inr by (simp add: grub_file_open_def h_def s1_def Let_def)
    from Cons.IH [of "fs @ [h]" s1] obtain ok new e where
      r: "open_chain env ps (fs @ [h]) s1
            = (ok, (fs @ [h]) @ map fst new, s1\<lparr>open_files := rev new @ open_files s1, grub_errno := e\<rparr>)"
      and d: "fst ` set new \<inter> fst ` set (open_files s1) = {}"
      and k: "ok \<longrightarrow> e = grub_errno s1 \<and> length new = length ps"
      by blast
    have hfresh: "h \<notin> fst ` set (open_files s)"
      unfolding h_def by (rule fresh_file_notin)
    have "open_chain env (p # ps) fs s
            = (ok, fs @ map fst ((h, f) # new),
               s\<lparr>open_files := rev ((h, f) # new) @ open_files s, grub_errno := e\<rparr>)"
      using step r by (simp add: s1_def)
    moreover have "fst ` set ((h, f) # new) \<inter> fst ` set (open_files s) = {}"
      using d hfresh by (auto simp: s1_def)
    moreover have "ok \<longrightarrow> e = grub_errno s \<and> length ((h, f) # new) = length (p # ps)"
      using k by (simp add: s1_def)
    ultimately show ?thesis by blast
  qed
qed

lemma open_chain_fails_at:
  assumes "i < length paths" "grub_fs env (paths ! i) = Inl e"
    "\<forall>j<i. \<exists>f. grub_fs env (paths ! j) = Inr f"
  shows "\<exists>new. length new = i
     \<and> open_chain env paths fs s
         = (False, fs @ map fst new, s\<lparr>open_files := rev new @ open_files s, grub_errno := e\<rparr>)
     \<and> fst ` set new \<inter> fst ` set (open_files s) = {}"
  using assms
proof (induction paths arbitrary: i fs s)
  case Nil
  then show ?case by simp
next
  case (Cons p ps)
  show ?case
  proof (cases i)
    case 0
    with Cons.prems have "open_chain env (p # ps) fs s
        = (False, fs @ map fst [], s\<lparr>open_files := rev [] @ open_files s, grub_errno := e\<rparr>)"
      by (simp add: grub_file_open_def)
    with 0 show ?thesis
      by (intro exI [of _ "[]"]) simp
  next
    case (Suc k)
    from Cons.prems(3) Suc obtain f where f: "grub_fs env p = Inr f"
      by fastforce
    define h where "h = fresh_file (open_files s)"
    define s1 where "s1 = s\<lparr>open_files := (h, f) # open_files s\<rparr>"
    have step: "open_chain env (p # ps) fs s = open_chain env ps (fs @ [h]) s1"
      using f by (simp add: grub_file_open_def h_def s1_def Let_def)
    have k: "k < length ps" "grub_fs env (ps ! k) = Inl e"
      "\<forall>j<k. \<exists>f. grub_fs env (ps ! j) = Inr f"
      using Cons.prems Suc by auto
    from Cons.IH [OF k, of "fs @ [h]" s1] obtain new where
      n: "length new = k"
      and r: "open_chain env ps (fs @ [h]) s1
            = (False, (fs @ [h]) @ map fst new, s1\<lparr>open_files := rev new @ open_files s1, grub_errno := e\<rparr>)"
      and d: "fst ` set new \<inter> fst ` set (open_files s1) = {}"
      by blast
    have hfresh: "h \<notin> fst ` set (open_files s)"
      unfolding h_def by (rule fresh_file_notin)
    have "open_chain env (p # ps) fs s
            = (False, fs @ map fst ((h, f) # new),
               s\<lparr>open_files := rev ((h, f) # new) @ open_files s, grub_errno := e\<rparr>)"
      using step r by (simp add: s1_def)
    moreover have "fst ` set ((h, f) # new) \<inter> fst ` set (open_files s) = {}"
      using d hfresh by (auto simp: s1_def)
    moreover have "length ((h, f) # new) = i"
      using n Suc by simp
    ultimately show ?thesis by blast
  qed
qed

lemma cmd_fail_restores:
  assumes "fst ` set new \<inter> fst ` set (open_files s) = {}"
  shows "cmd_fail (map fst new) (s\<lparr>open_files := rev new @ open_files s, grub_errno := e\<rparr>)
           = (e, s\<lparr>grub_errno := e\<rparr>)"
  using close_opened [OF assms]
  by (simp add: cmd_fail_def fold_grub_file_close)

subsection \<open>What one call of the command does to the registry\<close>

lemma unlink_dev_length:
  "unlink_dev name l = Some (d, r) \<Longrightarrow> length l = Suc (length r)"
  by (induction l arbitrary: d r) (auto split: if_splits option.splits)

lemma unlink_dev_None:
  "unlink_dev name l = None \<longleftrightarrow> \<not> list_ex (\<lambda>dev. devname dev = name) l"
  by (induction l) (auto split: option.splits)

lemma fold_close_fields:
  "loopback_list (fold grub_file_close hs s) = loopback_list s"
  "last_id (fold grub_file_close hs s) = last_id s"
  by (simp_all add: fold_grub_file_close)

lemma delete_loopbackx_fields:
  "last_id (snd (delete_loopbackx name s)) = last_id s"
  "length (loopback_list (snd (delete_loopbackx name s))) \<le> length (loopback_list s)"
  by (auto simp: delete_loopbackx_def grub_error_def fold_close_fields
      split: option.splits dest: unlink_dev_length)

lemma cmd_fail_fields:
  "last_id (snd (cmd_fail fs s)) = last_id s"
  "loopback_list (snd (cmd_fail fs s)) = loopback_list s"
  by (simp_all add: cmd_fail_def fold_close_fields)

lemma open_chain_fields:
  "last_id (snd (snd (open_chain env paths fs s))) = last_id s"
  "loopback_list (snd (snd (open_chain env paths fs s))) = loopback_list s"
  using open_chain_shape [of env paths fs s] by auto

text \<open>One call either leaves the counter alone and adds no device, or puts one new
  device with the old value of the counter at the head and adds one to the counter.\<close>

lemma grub_cmd_loopbackx_step:
  assumes "grub_cmd_loopbackx env set_d args s = (ret, s')"
  shows "(last_id s' = last_id s \<and> length (loopback_list s') \<le> length (loopback_list s))
       \<or> (ret = GRUB_ERR_NONE \<and> \<not> set_d \<and> last_id s' = last_id s + 1
          \<and> (\<exists>dev. loopback_list s' = dev # loopback_list s \<and> dev_id dev = last_id s))"
proof -
  let ?keep = "last_id s' = last_id s \<and> length (loopback_list s') \<le> length (loopback_list s)"
  have err: "?keep" if "grub_error e msg s = (ret, s')" for e msg
    using that by (auto simp: grub_error_def)
  have fail: "?keep" if "cmd_fail fs s1 = (ret, s')" "last_id s1 = last_id s"
    "loopback_list s1 = loopback_list s" for fs s1
    using that cmd_fail_fields [of fs s1] by auto
  obtain ok fs s1 where oc: "open_chain env (tl args) [] s = (ok, fs, s1)"
    by (metis prod_cases3)
  have f: "last_id s1 = last_id s" "loopback_list s1 = loopback_list s"
    using open_chain_fields [of env "tl args" "[]" s] oc by simp_all
  consider (noname) "length args < 1"
    | (del) "\<not> length args < 1" "set_d"
    | (nofile) "\<not> length args < 1" "\<not> set_d" "length args < 2"
    | (many) "\<not> length args < 1" "\<not> set_d" "\<not> length args < 2" "length args > MAXCHAINFILES + 1"
    | (dup) "\<not> length args < 1" "\<not> set_d" "\<not> length args < 2" "\<not> length args > MAXCHAINFILES + 1"
        "list_ex (\<lambda>dev. devname dev = args ! 0) (loopback_list s)"
    | (go) "\<not> length args < 1" "\<not> set_d" "\<not> length args < 2" "\<not> length args > MAXCHAINFILES + 1"
        "\<not> list_ex (\<lambda>dev. devname dev = args ! 0) (loopback_list s)"
    by blast
  then show ?thesis
  proof cases
    case noname
    then show ?thesis using assms err by (simp add: grub_cmd_loopbackx_def)
  next
    case del
    then have "delete_loopbackx (args ! 0) s = (ret, s')"
      using assms by (simp add: grub_cmd_loopbackx_def)
    then show ?thesis
      using delete_loopbackx_fields [of "args ! 0" s] by simp
  next
    case nofile
    then show ?thesis using assms err by (simp add: grub_cmd_loopbackx_def)
  next
    case many
    then show ?thesis using assms err by (simp add: grub_cmd_loopbackx_def)
  next
    case dup
    then show ?thesis using assms err by (simp add: grub_cmd_loopbackx_def)
  next
    case go
    show ?thesis
    proof (cases "ok \<and> \<not> malloc_fails env \<and> \<not> strdup_fails env")
      case True
      then have "(ret, s') = (GRUB_ERR_NONE,
                s1\<lparr>last_id := last_id s1 + 1,
                   loopback_list :=
                     \<lparr>devname = args ! 0, files = fs, dev_id = last_id s1\<rparr> # loopback_list s1\<rparr>)"
        using assms go oc by (simp add: grub_cmd_loopbackx_def)
      then show ?thesis using f go(2) by auto
    next
      case False
      define t where "t = (if ok then s1\<lparr>grub_errno := GRUB_ERR_OUT_OF_MEMORY\<rparr> else s1)"
      have "cmd_fail fs t = (ret, s')"
        using False assms go oc by (auto simp: grub_cmd_loopbackx_def t_def split: if_splits)
      moreover have "last_id t = last_id s" "loopback_list t = loopback_list s"
        using f by (simp_all add: t_def)
      ultimately show ?thesis using fail by blast
    qed
  qed
qed

subsection \<open>The ids of the devices of a sequence of calls\<close>

lemma created_ids_consecutive:
  "created_ids calls s = map (\<lambda>k. last_id s + of_nat k) [0..<length (created_ids calls s)]"
proof (induction calls arbitrary: s)
  case Nil
  then show ?case by simp
next
  case (Cons c calls)
  obtain env set_d args where c: "c = (env, set_d, args)"
    by (metis prod_cases3)
  obtain ret s' where r: "grub_cmd_loopbackx env set_d args s = (ret, s')"
    by (metis surj_pair)
  let ?m = "length (created_ids calls s')"
  from grub_cmd_loopbackx_step [OF r] show ?case
  proof
    assume k: "last_id s' = last_id s \<and> length (loopback_list s') \<le> length (loopback_list s)"
    then have "created_ids (c # calls) s = created_ids calls s'"
      using c r by simp
    then show ?thesis using Cons.IH [of s'] k by simp
  next
    assume n: "ret = GRUB_ERR_NONE \<and> \<not> set_d \<and> last_id s' = last_id s + 1
          \<and> (\<exists>dev. loopback_list s' = dev # loopback_list s \<and> dev_id dev = last_id s)"
    then have e: "created_ids (c # calls) s = last_id s # created_ids calls s'"
      using c r by auto
    have "created_ids calls s' = map (\<lambda>k. last_id s + 1 + of_nat k) [0..<?m]"
      using Cons.IH [of s'] n by simp
    also have "\<dots> = map (\<lambda>k. last_id s + of_nat k) (map Suc [0..<?m])"
      by (simp add: add.assoc)
    also have "map Suc [0..<?m] = [Suc 0..<Suc ?m]"
      by (rule map_Suc_upt)
    finally have t: "created_ids calls s' = map (\<lambda>k. last_id s + of_nat k) [Suc 0..<Suc ?m]" .
    have "last_id s # created_ids calls s' = map (\<lambda>k. last_id s + of_nat k) [0..<Suc ?m]"
      by (subst t) (simp add: upt_conv_Cons del: upt_Suc)
    then show ?thesis using e by simp
  qed
qed

lemma unat_add_of_nat_64:
  "unat w + k < 2 ^ 64 \<Longrightarrow> unat (w + of_nat k :: 64 word) = unat w + k"
  by (simp add: unat_word_ariths unat_of_nat)

lemma cycle_once:
  assumes "grub_fs env path = Inr f" "\<not> malloc_fails env" "\<not> strdup_fails env"
    and "\<not> list_ex (\<lambda>d. devname d = name) (loopback_list s)"
  shows "created_ids (create_delete_cycle env name path @ rest) s
           = last_id s # created_ids rest (s\<lparr>last_id := last_id s + 1\<rparr>)"
proof -
  define h where "h = fresh_file (open_files s)"
  define s1 where "s1 = s\<lparr>open_files := (h, f) # open_files s, last_id := last_id s + 1,
     loopback_list := \<lparr>devname = name, files = [h], dev_id = last_id s\<rparr> # loopback_list s\<rparr>"
  have c: "grub_cmd_loopbackx env False [name, path] s = (GRUB_ERR_NONE, s1)"
    using assms by (simp add: grub_cmd_loopbackx_def MAXCHAINFILES_def grub_file_open_def
        Let_def h_def s1_def)
  have "h \<notin> fst ` set (open_files s)"
    unfolding h_def by (rule fresh_file_notin)
  then have "filter (\<lambda>(k, f). k \<noteq> h) (open_files s) = open_files s"
    by (force simp: filter_id_conv)
  then have d: "grub_cmd_loopbackx env True [name] s1 = (GRUB_ERR_NONE, s\<lparr>last_id := last_id s + 1\<rparr>)"
    by (simp add: grub_cmd_loopbackx_def delete_loopbackx_def s1_def grub_file_close_def)
  show ?thesis
    using c d by (simp add: create_delete_cycle_def s1_def)
qed

lemma cycles_length:
  assumes "grub_fs env path = Inr f" "\<not> malloc_fails env" "\<not> strdup_fails env"
    and "\<not> list_ex (\<lambda>d. devname d = name) (loopback_list s)"
  shows "length (created_ids (concat (replicate k (create_delete_cycle env name path))) s) = k"
  using assms(4)
proof (induction k arbitrary: s)
  case 0
  then show ?case by simp
next
  case (Suc k)
  have "created_ids (concat (replicate (Suc k) (create_delete_cycle env name path))) s
      = last_id s # created_ids (concat (replicate k (create_delete_cycle env name path)))
            (s\<lparr>last_id := last_id s + 1\<rparr>)"
    using cycle_once [OF assms(1-3) Suc.prems] by simp
  then show ?case using Suc.IH [of "s\<lparr>last_id := last_id s + 1\<rparr>"] Suc.prems by simp
qed

lemma cycles_ids:
  assumes "grub_fs env path = Inr f" "\<not> malloc_fails env" "\<not> strdup_fails env"
    and "\<not> list_ex (\<lambda>d. devname d = name) (loopback_list s)"
  shows "created_ids (concat (replicate k (create_delete_cycle env name path))) s
           = map (\<lambda>j. last_id s + of_nat j) [0..<k]"
  using created_ids_consecutive [of "concat (replicate k (create_delete_cycle env name path))" s]
    cycles_length [OF assms, of k] by simp

lemma wrap_64: "N = 2 ^ 64 \<Longrightarrow> (of_nat N :: 64 word) = 0"
  by simp

subsection \<open>The walk along the chain of files\<close>

lemma map_of_store:
  "map_of (map (\<lambda>(k, g). if k = h then (k, f) else (k, g)) tbl) k'
     = (if k' = h then map_option (\<lambda>g. f) (map_of tbl k') else map_of tbl k')"
  by (induction tbl) auto

lemma file_at_file_store:
  "file_at (file_store h f s) k
     = (if k = h then map_option (\<lambda>g. f) (file_at s k) else file_at s k)"
  by (simp add: file_at_def file_store_def map_of_store)

lemma file_at_other_fields:
  "file_at (s\<lparr>memory := m\<rparr>) = file_at s"
  "file_at (s\<lparr>grub_errno := e\<rparr>) = file_at s"
  by (simp_all add: file_at_def fun_eq_iff)

lemma file_store_fields:
  "memory (file_store h f s) = memory s"
  "grub_errno (file_store h f s) = grub_errno s"
  by (simp_all add: file_store_def)

lemma read_chain_nothing: "read_chain hs spos 0 buf s = Some (0, buf, s)"
  by (cases hs) simp_all

lemma unat_sub_of_nat_64:
  assumes "k \<le> unat (w :: 64 word)"
  shows "unat (w - of_nat k) = unat w - k"
proof -
  have "unat w < 2 ^ LENGTH(64)"
    by (rule unsigned_less)
  then have "unat w < 2 ^ 64"
    by simp
  then have "k < 2 ^ 64"
    using assms by simp
  then have "unat (of_nat k :: 64 word) = k"
    by (simp add: unat_of_nat)
  then show ?thesis
    using assms by (simp add: unat_sub word_le_nat_alt)
qed

text \<open>Files that end at or before the cursor are passed over, and nothing changes but the cursor.\<close>

lemma read_chain_skip:
  assumes "map (file_at s) pre = map Some pfs"
    and "sum_list (map (\<lambda>f. unat (file_size f)) pfs) \<le> unat spos"
    and "tot \<noteq> 0"
  shows "read_chain (pre @ rest) spos tot buf s
           = read_chain rest (spos - of_nat (sum_list (map (\<lambda>f. unat (file_size f)) pfs))) tot buf s"
  using assms(1,2)
proof (induction pre arbitrary: pfs spos)
  case Nil
  then show ?case by simp
next
  case (Cons h pre)
  then obtain f pfs' where p: "pfs = f # pfs'" "file_at s h = Some f"
    "map (file_at s) pre = map Some pfs'"
    by (cases pfs) auto
  let ?r = "sum_list (map (\<lambda>f. unat (file_size f)) pfs')"
  have le: "unat (file_size f) + ?r \<le> unat spos"
    using Cons.prems(2) p(1) by simp
  then have ge: "file_size f \<le> spos"
    by (simp add: word_le_nat_alt)
  then have u: "unat (spos - file_size f) = unat spos - unat (file_size f)"
    by (simp add: unat_sub)
  have "read_chain ((h # pre) @ rest) spos tot buf s
          = read_chain (pre @ rest) (spos - file_size f) tot buf s"
    using p(2) ge assms(3) by (simp add: not_less [symmetric])
  also have "\<dots> = read_chain rest (spos - file_size f - of_nat ?r) tot buf s"
    using Cons.IH [OF p(3), of "spos - file_size f"] le u by simp
  also have "spos - file_size f - of_nat ?r = spos - of_nat (unat (file_size f) + ?r)"
    by simp
  finally show ?case using p(1) by simp
qed

text \<open>The file that the cursor is in: what one round of the loop does there.\<close>

lemma read_chain_resume:
  assumes "file_at s h = Some f" "spos < file_size f" "tot \<noteq> 0"
  shows "read_chain (h # rest) spos tot buf s
     = (let n = (if spos + file_size f > file_size f then file_size f - spos else tot);
            r = grub_file_read (grub_file_seek f spos) n
        in read_chain rest 0 (tot - n) (buf + unat n)
             (file_store h (snd (snd r))
                (s\<lparr>memory := write_bytes (memory s) buf (fst (snd r)),
                   grub_errno := (if fst r \<noteq> GRUB_ERR_NONE then fst r else grub_errno s)\<rparr>)))"
  using assms by (simp add: Let_def)

lemma grub_file_read_rest:
  assumes "fs_read_err f = GRUB_ERR_NONE" "length (contents f) = unat (file_size f)"
    "spos \<le> file_size f"
  shows "grub_file_read (grub_file_seek f spos) (file_size f - spos)
           = (GRUB_ERR_NONE, drop (unat spos) (contents f), f\<lparr>offset := file_size f\<rparr>)"
proof -
  have u: "unat (file_size f - spos) = unat (file_size f) - unat spos"
    using assms(3) by (simp add: unat_sub)
  have "spos + of_nat (unat (file_size f - spos)) = file_size f"
    by simp
  then have o: "spos + of_nat (unat (file_size f) - unat spos) = file_size f"
    using u by simp
  show ?thesis
    using assms u o by (simp add: grub_file_read_def grub_file_seek_def Let_def)
qed

lemma write_bytes_here: "map (write_bytes m a bs) [a..<a + length bs] = bs"
  by (rule nth_equalityI) (simp_all add: write_bytes_def)

lemma write_bytes_below: "c \<le> a \<Longrightarrow> map (write_bytes m a bs) [b..<c] = map m [b..<c]"
  by (simp add: write_bytes_def)

lemma write_bytes_above: "a + length bs \<le> b \<Longrightarrow> map (write_bytes m a bs) [b..<c] = map m [b..<c]"
  by (simp add: write_bytes_def)

section \<open>The command: creating and deleting devices\<close>

lemma failed_call_keeps_counter:
  "fst (grub_cmd_loopbackx env False args t) \<noteq> GRUB_ERR_NONE
     \<Longrightarrow> last_id (snd (grub_cmd_loopbackx env False args t)) = last_id t"
  using grub_cmd_loopbackx_step [of env False args t] by (metis prod.collapse)

text \<open>
  Claim C4. When the \<open>i\<close>-th path of a create call does not open (and the paths
  before it do), the call returns the error of that open, and the state it leaves is the
  state before the call with only \<^verbatim>\<open>grub_errno\<close> set: the registry has no new device,
  the counter is unchanged, and the table of open files is what it was, because the
  \<open>i - 1\<close> files that the loop had opened have all been closed again.
\<close>

theorem create_open_failure_is_atomic:
  assumes "1 \<le> i" "i < length args" "length args \<le> MAXCHAINFILES + 1"
    and "\<not> list_ex (\<lambda>dev. devname dev = args ! 0) (loopback_list s)"
    and "grub_fs env (args ! i) = Inl e"
    and "\<forall>j. 1 \<le> j \<and> j < i \<longrightarrow> (\<exists>f. grub_fs env (args ! j) = Inr f)"
  shows "grub_cmd_loopbackx env False args s = (e, s\<lparr>grub_errno := e\<rparr>)
     \<and> (\<exists>new. length new = i - 1
          \<and> open_chain env (tl args) [] s
              = (False, map fst new, s\<lparr>open_files := rev new @ open_files s, grub_errno := e\<rparr>)
          \<and> fold grub_file_close (map fst new)
               (s\<lparr>open_files := rev new @ open_files s, grub_errno := e\<rparr>) = s\<lparr>grub_errno := e\<rparr>)"
proof -
  from assms(1,2) obtain name paths where args: "args = name # paths"
    by (cases args) auto
  have i: "i - 1 < length paths" "grub_fs env (paths ! (i - 1)) = Inl e"
    "\<forall>j<i - 1. \<exists>f. grub_fs env (paths ! j) = Inr f"
    using assms(1,2,5,6) args by (auto simp: nth_Cons split: nat.splits)
  from open_chain_fails_at [OF i, of "[]" s] obtain new where
    n: "length new = i - 1"
    and r: "open_chain env paths [] s
             = (False, map fst new, s\<lparr>open_files := rev new @ open_files s, grub_errno := e\<rparr>)"
    and d: "fst ` set new \<inter> fst ` set (open_files s) = {}"
    by auto
  have c: "cmd_fail (map fst new) (s\<lparr>open_files := rev new @ open_files s, grub_errno := e\<rparr>)
           = (e, s\<lparr>grub_errno := e\<rparr>)"
    by (rule cmd_fail_restores [OF d])
  have "grub_cmd_loopbackx env False args s = (e, s\<lparr>grub_errno := e\<rparr>)"
    using assms(1-4) r c args by (auto simp: grub_cmd_loopbackx_def)
  moreover have "fold grub_file_close (map fst new)
       (s\<lparr>open_files := rev new @ open_files s, grub_errno := e\<rparr>) = s\<lparr>grub_errno := e\<rparr>"
    using c by (simp add: cmd_fail_def)
  ultimately show ?thesis using n r args by auto
qed

text \<open>
  The theorem at a concrete call: the second of two paths does not exist; the first file
  is opened, gets the pointer 1, and is closed again.
\<close>

theorem create_open_failure_is_atomic_witness:
  "grub_cmd_loopbackx two_files_env False [''hd'', ''a.img'', ''missing.img''] module_init
     = (GRUB_ERR_FILE_NOT_FOUND, module_init\<lparr>grub_errno := GRUB_ERR_FILE_NOT_FOUND\<rparr>)
   \<and> open_chain two_files_env [''a.img'', ''missing.img''] [] module_init
     = (False, [1], module_init\<lparr>open_files := [(1, plain_file 512 0x11)],
                                grub_errno := GRUB_ERR_FILE_NOT_FOUND\<rparr>)"
proof -
  have h: "1 \<le> (2::nat)" "2 < length [''hd'', ''a.img'', ''missing.img'']"
    "length [''hd'', ''a.img'', ''missing.img''] \<le> MAXCHAINFILES + 1"
    "\<not> list_ex (\<lambda>dev. devname dev = [''hd'', ''a.img'', ''missing.img''] ! 0)
         (loopback_list module_init)"
    "grub_fs two_files_env ([''hd'', ''a.img'', ''missing.img''] ! 2) = Inl GRUB_ERR_FILE_NOT_FOUND"
    "\<forall>j. 1 \<le> j \<and> j < 2 \<longrightarrow>
       (\<exists>f. grub_fs two_files_env ([''hd'', ''a.img'', ''missing.img''] ! j) = Inr f)"
    by (auto simp: MAXCHAINFILES_def module_init_def two_files_env_def nth_Cons
        split: nat.splits)
  have o: "open_chain two_files_env [''a.img'', ''missing.img''] [] module_init
     = (False, [1], module_init\<lparr>open_files := [(1, plain_file 512 0x11)],
                                grub_errno := GRUB_ERR_FILE_NOT_FOUND\<rparr>)"
    by (simp add: grub_file_open_def two_files_env_def module_init_def fresh_file_def)
  from create_open_failure_is_atomic [OF h] o show ?thesis by simp
qed

text \<open>
  Claim C8, as the code has it. A create call whose name is in the registry fails with
  \<open>GRUB_ERR_BAD_ARGUMENT\<close>, the code of every malformed call, and leaves the state
  as it was but for the error; the message is \<open>device name already exists\<close> when the
  number of paths is between 1 and \<open>MAXCHAINFILES\<close>. The module has no error code of
  its own for a duplicate name.
\<close>

theorem create_existing_name_is_bad_argument:
  assumes "list_ex (\<lambda>dev. devname dev = name) (loopback_list s)"
  shows "\<exists>msg. grub_cmd_loopbackx env False (name # paths) s
             = (GRUB_ERR_BAD_ARGUMENT, s\<lparr>grub_errno := GRUB_ERR_BAD_ARGUMENT, grub_errmsg := msg\<rparr>)
           \<and> (1 \<le> length paths \<and> length paths \<le> MAXCHAINFILES
                \<longrightarrow> msg = ''device name already exists'')"
  using assms by (auto simp: grub_cmd_loopbackx_def grub_error_def)

text \<open>
  The theorem at a concrete call: \<open>hd\<close> is created and then created again.
\<close>

theorem create_existing_name_is_bad_argument_witness:
  "list_ex (\<lambda>dev. devname dev = ''hd'')
     (loopback_list (snd (grub_cmd_loopbackx two_files_env False [''hd'', ''a.img''] module_init)))
   \<and> grub_cmd_loopbackx two_files_env False [''hd'', ''b.img'']
       (snd (grub_cmd_loopbackx two_files_env False [''hd'', ''a.img''] module_init))
     = (GRUB_ERR_BAD_ARGUMENT,
        (snd (grub_cmd_loopbackx two_files_env False [''hd'', ''a.img''] module_init))
          \<lparr>grub_errno := GRUB_ERR_BAD_ARGUMENT, grub_errmsg := ''device name already exists''\<rparr>)"
proof -
  let ?s = "snd (grub_cmd_loopbackx two_files_env False [''hd'', ''a.img''] module_init)"
  have h: "list_ex (\<lambda>dev. devname dev = ''hd'') (loopback_list ?s)"
    by (simp add: grub_cmd_loopbackx_def MAXCHAINFILES_def grub_file_open_def
        Let_def module_init_def two_files_env_def)
  have l: "1 \<le> length [''b.img''] \<and> length [''b.img''] \<le> MAXCHAINFILES"
    by (simp add: MAXCHAINFILES_def)
  from create_existing_name_is_bad_argument [OF h, of two_files_env "[''b.img'']"] l h
  show ?thesis by auto
qed

text \<open>
  Against claim C8 as stated: the error of a create call with a name that exists is
  \<open>GRUB_ERR_BAD_ARGUMENT\<close>, the same kind of error as that of a call without a file
  name, and not an error kind of its own.
\<close>

theorem duplicate_name_has_the_code_of_a_bad_argument:
  "fst (grub_cmd_loopbackx two_files_env False [''hd'', ''b.img'']
         (snd (grub_cmd_loopbackx two_files_env False [''hd'', ''a.img''] module_init)))
     = GRUB_ERR_BAD_ARGUMENT
   \<and> fst (grub_cmd_loopbackx two_files_env False [''hd''] module_init) = GRUB_ERR_BAD_ARGUMENT"
  by (simp add: grub_cmd_loopbackx_def MAXCHAINFILES_def grub_file_open_def
        Let_def module_init_def two_files_env_def grub_error_def)

lemma unlink_dev_first:
  "devname dev = name \<Longrightarrow> \<not> list_ex (\<lambda>d. devname d = name) before
     \<Longrightarrow> unlink_dev name (before @ dev # after) = Some (dev, before @ after)"
  by (induction before) auto

text \<open>
  Claim C9, as the code has it. With \<^verbatim>\<open>-d\<close> set, a call without positional
  argument fails with \<open>GRUB_ERR_BAD_ARGUMENT\<close> and leaves the state as it was but for
  the error. A call with one or more positional arguments does what the call with the
  first argument alone does: the others are ignored. When the registry has a device of
  that name, the call returns \<open>GRUB_ERR_NONE\<close>, the first such device is taken out of
  the registry, its files are closed, and nothing else changes. When the registry has
  none, the call fails with \<open>GRUB_ERR_BAD_DEVICE\<close> and leaves the state as it was but
  for the error.
\<close>

theorem delete_mode_takes_first_argument:
  "grub_cmd_loopbackx env True [] s
     = (GRUB_ERR_BAD_ARGUMENT,
        s\<lparr>grub_errno := GRUB_ERR_BAD_ARGUMENT, grub_errmsg := ''device name required''\<rparr>)
   \<and> grub_cmd_loopbackx env True (name # extra) s = grub_cmd_loopbackx env True [name] s
   \<and> (loopback_list s = before @ dev # after \<and> devname dev = name
         \<and> \<not> list_ex (\<lambda>d. devname d = name) before
       \<longrightarrow> grub_cmd_loopbackx env True (name # extra) s
            = (GRUB_ERR_NONE,
               s\<lparr>loopback_list := before @ after,
                  open_files := filter (\<lambda>(k, f). k \<notin> set (files dev)) (open_files s)\<rparr>))
   \<and> (\<not> list_ex (\<lambda>d. devname d = name) (loopback_list s)
       \<longrightarrow> grub_cmd_loopbackx env True (name # extra) s
            = (GRUB_ERR_BAD_DEVICE,
               s\<lparr>grub_errno := GRUB_ERR_BAD_DEVICE, grub_errmsg := ''device not found''\<rparr>))"
proof (intro conjI impI)
  show "grub_cmd_loopbackx env True [] s
     = (GRUB_ERR_BAD_ARGUMENT,
        s\<lparr>grub_errno := GRUB_ERR_BAD_ARGUMENT, grub_errmsg := ''device name required''\<rparr>)"
    by (simp add: grub_cmd_loopbackx_def grub_error_def)
  show "grub_cmd_loopbackx env True (name # extra) s = grub_cmd_loopbackx env True [name] s"
    by (simp add: grub_cmd_loopbackx_def)
next
  assume a: "loopback_list s = before @ dev # after \<and> devname dev = name
         \<and> \<not> list_ex (\<lambda>d. devname d = name) before"
  then have "unlink_dev name (loopback_list s) = Some (dev, before @ after)"
    using unlink_dev_first [of dev name before after] by simp
  then show "grub_cmd_loopbackx env True (name # extra) s
            = (GRUB_ERR_NONE,
               s\<lparr>loopback_list := before @ after,
                  open_files := filter (\<lambda>(k, f). k \<notin> set (files dev)) (open_files s)\<rparr>)"
    by (simp add: grub_cmd_loopbackx_def delete_loopbackx_def fold_grub_file_close)
next
  assume "\<not> list_ex (\<lambda>d. devname d = name) (loopback_list s)"
  then have "unlink_dev name (loopback_list s) = None"
    by (simp add: unlink_dev_None)
  then show "grub_cmd_loopbackx env True (name # extra) s
            = (GRUB_ERR_BAD_DEVICE,
               s\<lparr>grub_errno := GRUB_ERR_BAD_DEVICE, grub_errmsg := ''device not found''\<rparr>)"
    by (simp add: grub_cmd_loopbackx_def delete_loopbackx_def grub_error_def)
qed

text \<open>
  The theorem at a registry with the devices \<open>cd\<close> and \<open>hd\<close>: the call with three
  positional arguments takes \<open>hd\<close> out and closes its two files; and at a registry
  without a device \<open>fd\<close>.
\<close>

theorem delete_mode_takes_first_argument_witness:
  "grub_cmd_loopbackx two_files_env True [''hd'', ''b.img'', ''extra'']
      (snd (grub_cmd_loopbackx two_files_env False [''cd'', ''b.img'']
        (with_hd two_files_env [''a.img'', ''b.img''])))
     = (GRUB_ERR_NONE,
        module_init\<lparr>last_id := 2,
          loopback_list := [\<lparr>devname = ''cd'', files = [3], dev_id = 1\<rparr>],
          open_files := [(3, plain_file 512 0x22)]\<rparr>)
   \<and> grub_cmd_loopbackx two_files_env True [''fd'', ''extra'']
        (with_hd two_files_env [''a.img'', ''b.img''])
     = (GRUB_ERR_BAD_DEVICE,
        (with_hd two_files_env [''a.img'', ''b.img''])
          \<lparr>grub_errno := GRUB_ERR_BAD_DEVICE, grub_errmsg := ''device not found''\<rparr>)"
proof -
  let ?s = "with_hd two_files_env [''a.img'', ''b.img'']"
  let ?t = "snd (grub_cmd_loopbackx two_files_env False [''cd'', ''b.img''] ?s)"
  let ?cd = "\<lparr>devname = ''cd'', files = [3], dev_id = 1\<rparr>"
  let ?hd = "\<lparr>devname = ''hd'', files = [1, 2], dev_id = 0\<rparr>"
  have s: "?s = module_init\<lparr>open_files := [(2, plain_file 512 0x22), (1, plain_file 512 0x11)],
         last_id := 1, loopback_list := [?hd]\<rparr>"
    by (simp add: with_hd_def grub_cmd_loopbackx_def MAXCHAINFILES_def grub_file_open_def
      module_init_def two_files_env_def fresh_file_def)
  have t: "?t = module_init\<lparr>open_files := [(3, plain_file 512 0x22), (2, plain_file 512 0x22),
                                          (1, plain_file 512 0x11)],
         last_id := 2, loopback_list := [?cd, ?hd]\<rparr>"
    unfolding s
    by (simp add: grub_cmd_loopbackx_def MAXCHAINFILES_def grub_file_open_def
      module_init_def two_files_env_def fresh_file_def)
  have found: "loopback_list ?t = [?cd] @ ?hd # [] \<and> devname ?hd = ''hd''
         \<and> \<not> list_ex (\<lambda>d. devname d = ''hd'') [?cd]"
    unfolding t by simp
  have missing: "\<not> list_ex (\<lambda>d. devname d = ''fd'') (loopback_list ?s)"
    unfolding s by simp
  from delete_mode_takes_first_argument [where s = ?t and name = "''hd''" and before = "[?cd]"
      and dev = ?hd and after = "[]" and env = two_files_env and extra = "[''b.img'', ''extra'']",
      THEN conjunct2, THEN conjunct2, THEN conjunct1, rule_format, OF found]
  have a: "grub_cmd_loopbackx two_files_env True [''hd'', ''b.img'', ''extra''] ?t
     = (GRUB_ERR_NONE,
        module_init\<lparr>last_id := 2, loopback_list := [?cd], open_files := [(3, plain_file 512 0x22)]\<rparr>)"
    unfolding t by (simp add: module_init_def)
  from delete_mode_takes_first_argument [where s = ?s and name = "''fd''"
      and env = two_files_env and extra = "[''extra'']",
      THEN conjunct2, THEN conjunct2, THEN conjunct2, rule_format, OF missing]
  have b: "grub_cmd_loopbackx two_files_env True [''fd'', ''extra''] ?s
     = (GRUB_ERR_BAD_DEVICE,
        ?s\<lparr>grub_errno := GRUB_ERR_BAD_DEVICE, grub_errmsg := ''device not found''\<rparr>)" .
  from a b show ?thesis by simp
qed

text \<open>
  Against claim C9 as stated: a delete call with two positional arguments does not fail;
  it deletes the device \<open>hd\<close>.
\<close>

theorem delete_with_two_arguments_succeeds:
  "grub_cmd_loopbackx two_files_env True [''hd'', ''extra'']
       (snd (grub_cmd_loopbackx two_files_env False [''hd'', ''a.img''] module_init))
     = (GRUB_ERR_NONE, module_init\<lparr>last_id := 1\<rparr>)"
  by (simp add: grub_cmd_loopbackx_def MAXCHAINFILES_def grub_file_open_def
        Let_def module_init_def two_files_env_def grub_error_def delete_loopbackx_def
        grub_file_close_def fresh_file_def)

section \<open>The ids of the devices\<close>

text \<open>
  Claim C6, as the code has it. The counter \<^verbatim>\<open>last_id\<close> is an \<^verbatim>\<open>unsigned long\<close>.
  For every sequence of calls of the command, from every state, the ids of the devices
  that the sequence creates strictly increase in the order of creation, and no two are
  equal, as long as the counter does not wrap around: its value at the start plus the
  number of devices created is at most \<open>2 ^ 64\<close>.
\<close>

theorem ids_strictly_increase_until_wrap:
  assumes "unat (last_id s) + length (created_ids calls s) \<le> 2 ^ 64"
  shows "sorted_wrt (<) (created_ids calls s) \<and> distinct (created_ids calls s)"
proof -
  let ?n = "length (created_ids calls s)"
  let ?f = "\<lambda>k. last_id s + of_nat k"
  have ids: "created_ids calls s = map ?f [0..<?n]"
    by (rule created_ids_consecutive)
  have u: "unat (?f k) = unat (last_id s) + k" if "k < ?n" for k
    using that assms by (intro unat_add_of_nat_64) simp
  have "?f i < ?f j" if "i < j" "j < ?n" for i j
    using that u [of i] u [of j] by (simp add: word_less_nat_alt)
  then have "sorted_wrt (<) (map ?f [0..<?n])"
    by (simp add: sorted_wrt_iff_nth_less)
  then have "sorted_wrt (<) (created_ids calls s)"
    using ids by simp
  then show ?thesis
    by (simp add: strict_sorted_iff)
qed

text \<open>
  The theorem at a concrete sequence, with a delete and a create that use the name
  \<open>hd\<close> again, and two calls that fail.
\<close>

theorem ids_strictly_increase_until_wrap_witness:
  "created_ids
     [(two_files_env, False, [''hd'', ''a.img'']),
      (two_files_env, False, [''hd'', ''b.img'']),
      (two_files_env, True, [''hd'']),
      (two_files_env, False, [''hd'', ''b.img'', ''a.img'']),
      (two_files_env, False, [''cd'', ''missing.img'']),
      (two_files_env, False, [''cd'', ''a.img''])] module_init = [0, 1, 2]
   \<and> sorted_wrt (<) (created_ids
     [(two_files_env, False, [''hd'', ''a.img'']),
      (two_files_env, False, [''hd'', ''b.img'']),
      (two_files_env, True, [''hd'']),
      (two_files_env, False, [''hd'', ''b.img'', ''a.img'']),
      (two_files_env, False, [''cd'', ''missing.img'']),
      (two_files_env, False, [''cd'', ''a.img''])] module_init)"
proof -
  let ?calls = "[(two_files_env, False, [''hd'', ''a.img'']),
      (two_files_env, False, [''hd'', ''b.img'']),
      (two_files_env, True, [''hd'']),
      (two_files_env, False, [''hd'', ''b.img'', ''a.img'']),
      (two_files_env, False, [''cd'', ''missing.img'']),
      (two_files_env, False, [''cd'', ''a.img''])]"
  have e: "created_ids ?calls module_init = [0, 1, 2]"
    by (simp add: grub_cmd_loopbackx_def MAXCHAINFILES_def grub_file_open_def
        Let_def module_init_def two_files_env_def grub_error_def cmd_fail_def
        delete_loopbackx_def grub_file_close_def fresh_file_def)
  then have "unat (last_id module_init) + length (created_ids ?calls module_init) \<le> 2 ^ 64"
    by (simp add: module_init_def)
  from ids_strictly_increase_until_wrap [OF this] e show ?thesis by simp
qed

text \<open>
  Against claim C6 as stated: after \<open>2 ^ 64\<close> cycles that create and delete the
  device \<open>hd\<close>, the counter is 0 again, and the next device gets the id 0 that the
  first one had.
\<close>

theorem id_reassigned_after_wrap:
  "\<not> distinct (created_ids
        (concat (replicate (Suc (2 ^ 64)) (create_delete_cycle two_files_env ''hd'' ''a.img'')))
        module_init)"
proof -
  define N :: nat where "N = 2 ^ 64"
  let ?ids = "created_ids
        (concat (replicate (Suc N) (create_delete_cycle two_files_env ''hd'' ''a.img'')))
        module_init"
  have f: "grub_fs two_files_env ''a.img'' = Inr (plain_file 512 0x11)"
    "\<not> malloc_fails two_files_env" "\<not> strdup_fails two_files_env"
    "\<not> list_ex (\<lambda>d. devname d = ''hd'') (loopback_list module_init)"
    by (simp_all add: two_files_env_def module_init_def)
  have ids: "?ids = map (\<lambda>j. last_id module_init + of_nat j) [0..<Suc N]"
    by (rule cycles_ids [OF f])
  have "?ids ! 0 = 0"
    by (subst ids) (simp add: module_init_def nth_map del: upt_Suc map_upt_Suc)
  moreover have "?ids ! N = 0"
    by (subst ids) (simp add: module_init_def nth_map wrap_64 [OF N_def] del: upt_Suc)
  moreover have "length ?ids = Suc N"
    by (subst ids) simp
  moreover have "0 \<noteq> N" by (simp add: N_def)
  ultimately have "\<not> distinct ?ids"
    unfolding distinct_conv_nth by (metis lessI zero_less_Suc)
  then show ?thesis unfolding N_def .
qed

text \<open>
  Claim C10, as the code has it. A create call that fails leaves \<^verbatim>\<open>last_id\<close> as it
  was. From a state with \<^verbatim>\<open>last_id = 0\<close>, the ids of the devices created are the
  integers 0, 1, 2, ... in the order of creation, without gaps, as long as no more than
  \<open>2 ^ 64\<close> devices are created (after that the \<^verbatim>\<open>unsigned long\<close> counter starts
  again at 0).
\<close>

theorem failed_create_keeps_counter_ids_count_up:
  "(fst (grub_cmd_loopbackx env False args t) \<noteq> GRUB_ERR_NONE
      \<longrightarrow> last_id (snd (grub_cmd_loopbackx env False args t)) = last_id t)
   \<and> (last_id s = 0 \<and> length (created_ids calls s) \<le> 2 ^ 64
      \<longrightarrow> map unat (created_ids calls s) = [0..<length (created_ids calls s)])"
proof (intro conjI impI)
  assume "fst (grub_cmd_loopbackx env False args t) \<noteq> GRUB_ERR_NONE"
  then show "last_id (snd (grub_cmd_loopbackx env False args t)) = last_id t"
    by (rule failed_call_keeps_counter)
next
  let ?n = "length (created_ids calls s)"
  assume a: "last_id s = 0 \<and> ?n \<le> 2 ^ 64"
  have ids: "created_ids calls s = map (\<lambda>k. last_id s + of_nat k) [0..<?n]"
    by (rule created_ids_consecutive)
  have "unat (last_id s + of_nat k) = k" if "k < ?n" for k
    using that a unat_add_of_nat_64 [of "last_id s" k] by simp
  then have "map (\<lambda>k. unat (last_id s + of_nat k)) [0..<?n] = [0..<?n]"
    by (intro map_idI) (simp add: o_def)
  then show "map unat (created_ids calls s) = [0..<?n]"
    by (subst ids) (simp add: o_def del: map_upt_Suc upt_Suc)
qed

text \<open>
  The theorem at a concrete failing call and a concrete sequence of calls.
\<close>

theorem failed_create_keeps_counter_ids_count_up_witness:
  "fst (grub_cmd_loopbackx two_files_env False [''hd'', ''a.img'', ''missing.img''] module_init)
      \<noteq> GRUB_ERR_NONE
   \<and> last_id (snd (grub_cmd_loopbackx two_files_env False [''hd'', ''a.img'', ''missing.img'']
        module_init)) = last_id module_init
   \<and> last_id module_init = 0
   \<and> map unat (created_ids
        [(two_files_env, False, [''hd'', ''a.img'']),
         (two_files_env, False, [''cd'', ''a.img'', ''missing.img'']),
         (two_files_env, False, [''hd'', ''b.img'']),
         (two_files_env, False, [''cd'', ''b.img''])] module_init) = [0, 1]"
proof -
  let ?calls = "[(two_files_env, False, [''hd'', ''a.img'']),
         (two_files_env, False, [''cd'', ''a.img'', ''missing.img'']),
         (two_files_env, False, [''hd'', ''b.img'']),
         (two_files_env, False, [''cd'', ''b.img''])]"
  have e: "created_ids ?calls module_init = [0, 1]"
    by (simp add: grub_cmd_loopbackx_def MAXCHAINFILES_def grub_file_open_def
        Let_def module_init_def two_files_env_def grub_error_def cmd_fail_def
        grub_file_close_def fresh_file_def)
  have f: "fst (grub_cmd_loopbackx two_files_env False [''hd'', ''a.img'', ''missing.img'']
             module_init) \<noteq> GRUB_ERR_NONE"
    by (simp add: grub_cmd_loopbackx_def MAXCHAINFILES_def grub_file_open_def
        Let_def module_init_def two_files_env_def cmd_fail_def grub_file_close_def)
  have z: "last_id module_init = 0 \<and> length (created_ids ?calls module_init) \<le> 2 ^ 64"
    using e by (simp add: module_init_def)
  from failed_create_keeps_counter_ids_count_up
    [of two_files_env "[''hd'', ''a.img'', ''missing.img'']" module_init module_init ?calls]
    e f z show ?thesis by simp
qed

text \<open>
  Against claim C10 as stated: with \<open>2 ^ 64 + 1\<close> devices created, the ids are not
  the integers from 0 to \<open>2 ^ 64\<close>: the last one is 0.
\<close>

theorem ids_not_the_integers_after_wrap:
  "map unat (created_ids
        (concat (replicate (Suc (2 ^ 64)) (create_delete_cycle two_files_env ''cd'' ''b.img'')))
        module_init) \<noteq> [0..<Suc (2 ^ 64)]"
proof -
  define N :: nat where "N = 2 ^ 64"
  let ?ids = "created_ids
        (concat (replicate (Suc N) (create_delete_cycle two_files_env ''cd'' ''b.img'')))
        module_init"
  have f: "grub_fs two_files_env ''b.img'' = Inr (plain_file 512 0x22)"
    "\<not> malloc_fails two_files_env" "\<not> strdup_fails two_files_env"
    "\<not> list_ex (\<lambda>d. devname d = ''cd'') (loopback_list module_init)"
    by (simp_all add: two_files_env_def module_init_def)
  have ids: "?ids = map (\<lambda>j. last_id module_init + of_nat j) [0..<Suc N]"
    by (rule cycles_ids [OF f])
  have "map unat ?ids ! N = 0"
    by (subst ids) (simp add: module_init_def nth_map wrap_64 [OF N_def] del: upt_Suc)
  moreover have "[0..<Suc N] ! N = N"
    by (simp add: nth_append)
  moreover have "N \<noteq> 0" by (simp add: N_def)
  ultimately have "map unat ?ids \<noteq> [0..<Suc N]"
    by metis
  then show ?thesis unfolding N_def .
qed

section \<open>The driver: reading\<close>

subsection \<open>The example device of one file of 10 bytes\<close>

lemma with_hd_ten:
  "with_hd small_files_env [''ten.img'']
     = module_init\<lparr>open_files := [(1, bytes_file ten_bytes)], last_id := 1,
         loopback_list := [\<lparr>devname = ''hd'', files = [1], dev_id = 0\<rparr>]\<rparr>"
  by (simp add: with_hd_def grub_cmd_loopbackx_def MAXCHAINFILES_def grub_file_open_def
      module_init_def small_files_env_def fresh_file_def)

lemma hd_disk_ten:
  "data (hd_disk byte_addressed (with_hd small_files_env [''ten.img'']))
     = Some \<lparr>devname = ''hd'', files = [1], dev_id = 0\<rparr>"
  by (simp add: with_hd_ten hd_disk_def grub_loopbackx_open_def module_init_def file_at_def
      bytes_file_def ten_bytes_def GRUB_FILE_SIZE_UNKNOWN_def no_disk_def)

lemma upt_0_15: "[0..<15] = [0, 1, 2, 3, 4, 5, 6, 7, 8, 9, 10, 11, 12, 13, 14]"
  by (simp add: eval_nat_numeral)

lemma upt_0_20: "[0..<20] = [0, 1, 2, 3, 4, 5, 6, 7, 8, 9, 10, 11, 12, 13, 14, 15, 16, 17, 18, 19]"
  by (simp add: eval_nat_numeral)

subsection \<open>Reading past the end of the chain\<close>

text \<open>
  Claim C2, as the code has it. Let the read start after the first byte of the last file
  of the chain: the files before it end before the first byte asked for, so that the
  cursor \<open>c\<close> is not 0 when the walk reaches the last file (or passes it). Let the
  bytes asked for go past the end of that file, let the file read without error and
  no error be pending, and let \<open>c\<close> plus the length of the file fit into 64 bits. Then
  the call returns \<open>GRUB_ERR_NONE\<close>, and the buffer holds the bytes of the last file
  from \<open>c\<close> on, followed by zeros up to the length asked for. For one file of 10 bytes
  and the bytes [5, 20), these are the bytes [5, 10) of the file and 10 zero bytes.
\<close>

theorem read_past_end_zero_fills:
  fixes cfg :: grub_disk_config and sector nsec :: "64 word"
  defines "spos \<equiv> push_bit (GRUB_DISK_SECTOR_BITS cfg) sector"
    and "tot \<equiv> push_bit (GRUB_DISK_SECTOR_BITS cfg) nsec"
  assumes dev: "data disk = Some dev" "files dev = pre @ [h]"
    and pre: "map (file_at s) pre = map Some pfs"
    and last: "file_at s h = Some f" "fs_read_err f = GRUB_ERR_NONE"
      "length (contents f) = unat (file_size f)"
    and noerr: "grub_errno s = GRUB_ERR_NONE"
    and cursor: "sum_list (map (\<lambda>f. unat (file_size f)) pfs) < unat spos"
      "c = unat spos - sum_list (map (\<lambda>f. unat (file_size f)) pfs)"
      "c + unat (file_size f) < 2 ^ 64"
    and past: "unat (file_size f) < c + unat tot"
  shows "\<exists>s'. grub_loopbackx_read cfg disk sector nsec buf s = Some (GRUB_ERR_NONE, s')
     \<and> map (memory s') [buf..<buf + unat tot]
         = drop c (contents f) @ replicate (unat tot - (unat (file_size f) - c)) 0"
proof (cases "tot = 0")
  case True
  then have "grub_loopbackx_read cfg disk sector nsec buf s = Some (GRUB_ERR_NONE, s)"
    using dev noerr by (simp add: grub_loopbackx_read_def read_chain_nothing tot_def)
  moreover have "drop c (contents f) = []"
    using True past last(3) by simp
  ultimately show ?thesis using True by simp
next
  case False
  let ?sum = "sum_list (map (\<lambda>f. unat (file_size f)) pfs)"
  define cw where "cw = spos - of_nat ?sum"
  have cw: "unat cw = c" "0 < c"
    using cursor(1,2) unat_sub_of_nat_64 [of ?sum spos] by (simp_all add: cw_def)
  have skip: "read_chain (files dev) spos tot buf s = read_chain [h] cw tot buf s"
    using read_chain_skip [OF pre _ False, of spos "[h]" buf] cursor(1) dev(2)
    by (simp add: cw_def)
  show ?thesis
  proof (cases "cw < file_size f")
    case inside: True
    define n where "n = file_size f - cw"
    have un: "unat n = unat (file_size f) - c"
      using inside cw(1) by (simp add: n_def unat_sub)
    have "unat (cw + file_size f) = c + unat (file_size f)"
      using cursor(3) cw(1) by (simp add: unat_word_ariths)
    then have gt: "cw + file_size f > file_size f"
      using cw by (simp add: word_less_nat_alt)
    have rd: "grub_file_read (grub_file_seek f cw) n
           = (GRUB_ERR_NONE, drop c (contents f), f\<lparr>offset := file_size f\<rparr>)"
      using grub_file_read_rest [OF last(2,3), of cw] inside cw(1) by (simp add: n_def)
    define s1 where "s1 = file_store h (f\<lparr>offset := file_size f\<rparr>)
       (s\<lparr>memory := write_bytes (memory s) buf (drop c (contents f)), grub_errno := grub_errno s\<rparr>)"
    have walk: "read_chain [h] cw tot buf s = Some (tot - n, buf + unat n, s1)"
      using read_chain_resume [OF last(1) inside False, of "[]" buf] gt rd
      by (simp add: Let_def n_def s1_def)
    have lt: "unat n < unat tot"
      using un past inside cw(1) by (simp add: word_less_nat_alt)
    then have ut: "unat (tot - n) = unat tot - unat n"
      by (simp add: unat_sub word_le_nat_alt)
    then have pos: "tot - n > 0"
      using lt by (simp add: word_less_nat_alt)
    have len: "length (drop c (contents f)) = unat n"
      using un last(3) by simp
    let ?m1 = "write_bytes (memory s) buf (drop c (contents f))"
    let ?z = "replicate (unat (tot - n)) (0 :: grub_uint8_t)"
    have res: "grub_loopbackx_read cfg disk sector nsec buf s
           = Some (GRUB_ERR_NONE, grub_memset (buf + unat n) 0 (tot - n) s1)"
      using dev(1) skip walk pos noerr
      by (simp add: grub_loopbackx_read_def spos_def tot_def s1_def file_store_fields)
    have mem: "memory (grub_memset (buf + unat n) 0 (tot - n) s1)
            = write_bytes ?m1 (buf + unat n) ?z"
      by (simp add: grub_memset_def s1_def file_store_fields)
    have split: "[buf..<buf + unat tot] = [buf..<buf + unat n] @ [buf + unat n..<buf + unat n + unat (tot - n)]"
      using lt ut upt_add_eq_append [of buf "buf + unat n" "unat tot - unat n"] by simp
    have "map (write_bytes ?m1 (buf + unat n) ?z) [buf..<buf + unat n] = map ?m1 [buf..<buf + unat n]"
      by (rule write_bytes_below) simp
    also have "\<dots> = map ?m1 [buf..<buf + length (drop c (contents f))]"
      by (simp only: len)
    also have "\<dots> = drop c (contents f)"
      by (rule write_bytes_here)
    finally have a: "map (write_bytes ?m1 (buf + unat n) ?z) [buf..<buf + unat n] = drop c (contents f)" .
    have "map (write_bytes ?m1 (buf + unat n) ?z) [buf + unat n..<buf + unat n + length ?z] = ?z"
      by (rule write_bytes_here)
    then have b: "map (write_bytes ?m1 (buf + unat n) ?z) [buf + unat n..<buf + unat n + unat (tot - n)] = ?z"
      by (simp only: length_replicate)
    have "map (memory (grub_memset (buf + unat n) 0 (tot - n) s1)) [buf..<buf + unat tot]
            = drop c (contents f) @ replicate (unat tot - (unat (file_size f) - c)) 0"
      unfolding mem split map_append a b using ut un by simp
    with res show ?thesis by blast
  next
    case outside: False
    then have ge: "unat (file_size f) \<le> c"
      using cw(1) by (simp add: word_less_nat_alt)
    have walk: "read_chain [h] cw tot buf s = Some (tot, buf, s)"
      using last(1) outside False by simp
    have pos: "tot > 0"
      using False by (simp add: word_greater_zero_iff)
    have res: "grub_loopbackx_read cfg disk sector nsec buf s
           = Some (GRUB_ERR_NONE, grub_memset buf 0 tot s)"
      using dev(1) skip walk pos noerr
      by (simp add: grub_loopbackx_read_def spos_def tot_def)
    have "map (memory (grub_memset buf 0 tot s)) [buf..<buf + unat tot] = replicate (unat tot) 0"
      using write_bytes_here [of "memory s" buf "replicate (unat tot) 0"]
      by (simp add: grub_memset_def)
    moreover have "drop c (contents f) = []"
      using ge last(3) by simp
    ultimately show ?thesis using res ge by simp
  qed
qed

text \<open>
  The theorem at the example of the specification: one file of 10 bytes, sectors of one
  byte, the bytes [5, 20).
\<close>

theorem read_past_end_zero_fills_witness:
  "\<exists>s'. grub_loopbackx_read byte_addressed
            (hd_disk byte_addressed (with_hd small_files_env [''ten.img''])) 5 15 0
            (with_hd small_files_env [''ten.img'']) = Some (GRUB_ERR_NONE, s')
      \<and> map (memory s') [0..<15] = [5, 6, 7, 8, 9, 0, 0, 0, 0, 0, 0, 0, 0, 0, 0]"
proof -
  let ?s = "with_hd small_files_env [''ten.img'']"
  let ?f = "bytes_file ten_bytes"
  have "\<exists>s'. grub_loopbackx_read byte_addressed (hd_disk byte_addressed ?s) 5 15 0 ?s
               = Some (GRUB_ERR_NONE, s')
     \<and> map (memory s') [0..<0 + unat (push_bit (GRUB_DISK_SECTOR_BITS byte_addressed) (15 :: 64 word))]
         = drop 5 (contents ?f)
           @ replicate (unat (push_bit (GRUB_DISK_SECTOR_BITS byte_addressed) (15 :: 64 word))
                         - (unat (file_size ?f) - 5)) 0"
  proof (rule read_past_end_zero_fills [where pre = "[]" and pfs = "[]" and h = 1])
    show "data (hd_disk byte_addressed ?s) = Some \<lparr>devname = ''hd'', files = [1], dev_id = 0\<rparr>"
      by (rule hd_disk_ten)
    show "file_at ?s 1 = Some ?f"
      by (simp add: with_hd_ten file_at_def)
  qed (simp_all add: byte_addressed_def bytes_file_def ten_bytes_def with_hd_ten module_init_def)
  moreover have "replicate 10 (0 :: grub_uint8_t) = [0, 0, 0, 0, 0, 0, 0, 0, 0, 0]"
    by (simp add: eval_nat_numeral)
  ultimately show ?thesis
    by (simp add: byte_addressed_def bytes_file_def ten_bytes_def)
qed

text \<open>
  Against claim C2 as stated: for one file of 10 bytes, the read of [5, 20) delivers the
  bytes [5, 10) and 10 zero bytes, not 5; and the read of [0, 20), which goes past the
  end as well, fills no tail with zeros: the last 10 bytes of the buffer keep what they
  held before (\<open>0xAA\<close>).
\<close>

theorem zero_fill_is_ten_bytes_or_missing:
  "delivered 15 (grub_loopbackx_read byte_addressed
       (hd_disk byte_addressed (with_hd small_files_env [''ten.img''])) 5 15 0
       (with_hd small_files_env [''ten.img'']))
     = Some (GRUB_ERR_NONE, [5, 6, 7, 8, 9, 0, 0, 0, 0, 0, 0, 0, 0, 0, 0])
   \<and> delivered 15 (grub_loopbackx_read byte_addressed
       (hd_disk byte_addressed (with_hd small_files_env [''ten.img''])) 5 15 0
       (with_hd small_files_env [''ten.img'']))
     \<noteq> Some (GRUB_ERR_NONE, [5, 6, 7, 8, 9, 0, 0, 0, 0, 0])
   \<and> delivered 20 (grub_loopbackx_read byte_addressed
       (hd_disk byte_addressed (with_hd small_files_env [''ten.img''])) 0 20 0
       (with_hd small_files_env [''ten.img'']))
     = Some (GRUB_ERR_NONE, [0, 1, 2, 3, 4, 5, 6, 7, 8, 9, 0xAA, 0xAA, 0xAA, 0xAA, 0xAA, 0xAA, 0xAA, 0xAA, 0xAA, 0xAA])"
  unfolding grub_loopbackx_read_def hd_disk_ten
  by (simp add: with_hd_ten upt_0_15 upt_0_20 byte_addressed_def file_at_def file_store_def
      module_init_def bytes_file_def ten_bytes_def grub_file_read_def grub_file_seek_def
      grub_memset_def write_bytes_def delivered_def Let_def)

subsection \<open>Reading across the boundary of two files\<close>

lemma with_hd_ten_twenty:
  "with_hd small_files_env [''ten.img'', ''twenty.img'']
     = module_init\<lparr>open_files := [(2, bytes_file twenty_bytes), (1, bytes_file ten_bytes)],
         last_id := 1,
         loopback_list := [\<lparr>devname = ''hd'', files = [1, 2], dev_id = 0\<rparr>]\<rparr>"
  by (simp add: with_hd_def grub_cmd_loopbackx_def MAXCHAINFILES_def grub_file_open_def
      module_init_def small_files_env_def fresh_file_def)

lemma hd_disk_ten_twenty:
  "data (hd_disk byte_addressed (with_hd small_files_env [''ten.img'', ''twenty.img'']))
     = Some \<lparr>devname = ''hd'', files = [1, 2], dev_id = 0\<rparr>"
  by (simp add: with_hd_ten_twenty hd_disk_def grub_loopbackx_open_def module_init_def file_at_def
      bytes_file_def ten_bytes_def twenty_bytes_def GRUB_FILE_SIZE_UNKNOWN_def no_disk_def)

text \<open>
  Claim C5. With sectors of one byte, a device of two files of 10 and 20 bytes that
  read without error, and no error pending: the read of 20 bytes from byte 5 returns
  \<open>GRUB_ERR_NONE\<close>, and the buffer holds the bytes [5, 10) of the first file followed
  by the bytes [0, 15) of the second.
\<close>

theorem read_across_boundary:
  assumes cfg: "GRUB_DISK_SECTOR_BITS cfg = 0"
    and dev: "data disk = Some dev" "files dev = [h1, h2]"
    and f1: "file_at s h1 = Some f1" "file_size f1 = 10" "length (contents f1) = 10"
      "fs_read_err f1 = GRUB_ERR_NONE"
    and f2: "file_at s h2 = Some f2" "file_size f2 = 20" "length (contents f2) = 20"
      "fs_read_err f2 = GRUB_ERR_NONE"
    and noerr: "grub_errno s = GRUB_ERR_NONE"
  shows "\<exists>s'. grub_loopbackx_read cfg disk 5 20 buf s = Some (GRUB_ERR_NONE, s')
     \<and> map (memory s') [buf..<buf + 20] = drop 5 (contents f1) @ take 15 (contents f2)"
proof -
  let ?b1 = "drop 5 (contents f1)"
  let ?b2 = "take 15 (contents f2)"
  let ?m1 = "write_bytes (memory s) buf ?b1"
  define s1 where "s1 = file_store h1 (f1\<lparr>offset := 10\<rparr>)
       (s\<lparr>memory := ?m1, grub_errno := GRUB_ERR_NONE\<rparr>)"
  define s2 where "s2 = file_store h2 (f2\<lparr>offset := 15\<rparr>)
       (s1\<lparr>memory := write_bytes ?m1 (buf + 5) ?b2, grub_errno := GRUB_ERR_NONE\<rparr>)"
  have ne: "h1 \<noteq> h2"
    using f1(1,2) f2(1,2) by auto
  have r1: "grub_file_read (grub_file_seek f1 5) 5 = (GRUB_ERR_NONE, ?b1, f1\<lparr>offset := 10\<rparr>)"
    using grub_file_read_rest [OF f1(4), of 5] f1(2,3) by simp
  have step1: "read_chain [h1, h2] 5 20 buf s = read_chain [h2] 0 15 (buf + 5) s1"
    using read_chain_resume [OF f1(1), of 5 20 "[h2]" buf] f1(2) r1 noerr
    by (simp add: s1_def del: read_chain.simps)
  have at2: "file_at s1 h2 = Some f2"
    using ne f2(1) by (simp add: s1_def file_at_file_store file_at_other_fields)
  have r2: "grub_file_read (grub_file_seek f2 0) 15 = (GRUB_ERR_NONE, ?b2, f2\<lparr>offset := 15\<rparr>)"
    using f2(2,3,4) by (simp add: grub_file_read_def grub_file_seek_def)
  have e1: "grub_errno s1 = GRUB_ERR_NONE" "memory s1 = ?m1"
    by (simp_all add: s1_def file_store_fields)
  have step2: "read_chain [h2] 0 15 (buf + 5) s1 = Some (0, buf + 20, s2)"
    using read_chain_resume [OF at2, of 0 15 "[]" "buf + 5"] f2(2) r2 e1
    by (simp add: s2_def del: read_chain.simps(2))
  have e2: "grub_errno s2 = GRUB_ERR_NONE" "memory s2 = write_bytes ?m1 (buf + 5) ?b2"
    by (simp_all add: s2_def file_store_fields)
  have res: "grub_loopbackx_read cfg disk 5 20 buf s = Some (GRUB_ERR_NONE, s2)"
    using dev cfg step1 step2 e2(1) by (simp add: grub_loopbackx_read_def)
  have l1: "length ?b1 = 5" and l2: "length ?b2 = 15"
    using f1(3) f2(3) by simp_all
  have "map (write_bytes ?m1 (buf + 5) ?b2) [buf..<buf + 5] = map ?m1 [buf..<buf + 5]"
    by (rule write_bytes_below) simp
  also have "\<dots> = map ?m1 [buf..<buf + length ?b1]"
    by (simp only: l1)
  also have "\<dots> = ?b1"
    by (rule write_bytes_here)
  finally have a: "map (write_bytes ?m1 (buf + 5) ?b2) [buf..<buf + 5] = ?b1" .
  have "map (write_bytes ?m1 (buf + 5) ?b2) [buf + 5..<buf + 5 + length ?b2] = ?b2"
    by (rule write_bytes_here)
  then have b: "map (write_bytes ?m1 (buf + 5) ?b2) [buf + 5..<buf + 5 + 15] = ?b2"
    by (simp only: l2)
  have split: "[buf..<buf + 20] = [buf..<buf + 5] @ [buf + 5..<buf + 5 + 15]"
    using upt_add_eq_append [of buf "buf + 5" 15] by (simp add: add.commute)
  have "map (memory s2) [buf..<buf + 20] = ?b1 @ ?b2"
    unfolding e2(2) split map_append a b ..
  with res show ?thesis by blast
qed

text \<open>
  The theorem at two concrete files, in the state that the command leaves when it has
  created the device from them.
\<close>

theorem read_across_boundary_witness:
  "\<exists>s'. grub_loopbackx_read byte_addressed
            (hd_disk byte_addressed (with_hd small_files_env [''ten.img'', ''twenty.img''])) 5 20 0
            (with_hd small_files_env [''ten.img'', ''twenty.img'']) = Some (GRUB_ERR_NONE, s')
      \<and> map (memory s') [0..<20]
          = [5, 6, 7, 8, 9,
             100, 101, 102, 103, 104, 105, 106, 107, 108, 109, 110, 111, 112, 113, 114]"
proof -
  let ?s = "with_hd small_files_env [''ten.img'', ''twenty.img'']"
  have "\<exists>s'. grub_loopbackx_read byte_addressed (hd_disk byte_addressed ?s) 5 20 0 ?s
               = Some (GRUB_ERR_NONE, s')
     \<and> map (memory s') [0..<0 + 20]
         = drop 5 (contents (bytes_file ten_bytes)) @ take 15 (contents (bytes_file twenty_bytes))"
  proof (rule read_across_boundary [where ?h1.0 = 1 and ?h2.0 = 2])
    show "data (hd_disk byte_addressed ?s) = Some \<lparr>devname = ''hd'', files = [1, 2], dev_id = 0\<rparr>"
      by (rule hd_disk_ten_twenty)
    show "file_at ?s 1 = Some (bytes_file ten_bytes)"
      by (simp add: with_hd_ten_twenty file_at_def)
    show "file_at ?s 2 = Some (bytes_file twenty_bytes)"
      by (simp add: with_hd_ten_twenty file_at_def)
  qed (simp_all add: byte_addressed_def bytes_file_def ten_bytes_def twenty_bytes_def
        with_hd_ten_twenty module_init_def)
  then show ?thesis
    by (simp add: bytes_file_def ten_bytes_def twenty_bytes_def)
qed

subsection \<open>Errors of the file layer during a read\<close>















subsection \<open>The number of bytes read from a file\<close>

lemma with_hd_a_b:
  "with_hd two_files_env [''a.img'', ''b.img'']
     = module_init\<lparr>open_files := [(2, plain_file 512 0x22), (1, plain_file 512 0x11)],
         last_id := 1,
         loopback_list := [\<lparr>devname = ''hd'', files = [1, 2], dev_id = 0\<rparr>]\<rparr>"
  by (simp add: with_hd_def grub_cmd_loopbackx_def MAXCHAINFILES_def grub_file_open_def
      module_init_def two_files_env_def fresh_file_def)

lemma hd_disk_a_b:
  "hd_disk grub_config (with_hd two_files_env [''a.img'', ''b.img''])
     = \<lparr>total_sectors = 2, max_agglomerate = 16384, disk_id = 0,
        data = Some \<lparr>devname = ''hd'', files = [1, 2], dev_id = 0\<rparr>\<rparr>"
  by (simp add: with_hd_a_b hd_disk_def grub_loopbackx_open_def module_init_def file_at_def
      plain_file_def GRUB_FILE_SIZE_UNKNOWN_def GRUB_DISK_SIZE_UNKNOWN_def no_disk_def grub_config_def
      GRUB_DISK_SECTOR_SIZE_def)

lemma with_hd_four:
  "with_hd small_files_env [''four.img'']
     = module_init\<lparr>open_files := [(1, plain_file 2048 0x44)], last_id := 1,
         loopback_list := [\<lparr>devname = ''hd'', files = [1], dev_id = 0\<rparr>]\<rparr>"
  by (simp add: with_hd_def grub_cmd_loopbackx_def MAXCHAINFILES_def grub_file_open_def
      module_init_def small_files_env_def fresh_file_def)

text \<open>
  Claim C1 does not hold of the code. The loop compares \<^verbatim>\<open>epos = spos + files[i]->size\<close>
  with the size of the file, so that the number \<open>n\<close> of bytes is the rest of the
  file whenever the cursor is not 0, and all the bytes still asked for whenever it is
  0; it is not the smaller of the two.

  With sectors of 512 bytes and two files of one sector each, the read of the sectors 0
  and 1 takes \<open>n = 1024\<close> at the first file: the file layer delivers its 512 bytes,
  the position in the buffer moves on by 1024, nothing is left to read, and the second
  file is never read. The call returns \<open>GRUB_ERR_NONE\<close>, and the second sector of the
  buffer holds what it held before.

  With one file of four sectors, the read of sector 1 alone takes \<open>n = 1536\<close>: three
  sectors are written to a buffer of one, and the number of bytes still asked for wraps
  around to \<open>2 ^ 64 - 1024\<close>.
\<close>

theorem read_advances_by_wrong_length:
  "read_chain [1, 2] (push_bit 9 0) (push_bit 9 2) 0 (with_hd two_files_env [''a.img'', ''b.img''])
     = Some (0, 1024,
         (with_hd two_files_env [''a.img'', ''b.img''])
           \<lparr>open_files := [(2, plain_file 512 0x22), (1, (plain_file 512 0x11)\<lparr>offset := 512\<rparr>)],
            memory := write_bytes (\<lambda>a. 0xAA) 0 (replicate 512 0x11)\<rparr>)
   \<and> grub_loopbackx_read grub_config
        (hd_disk grub_config (with_hd two_files_env [''a.img'', ''b.img''])) 0 2 0
        (with_hd two_files_env [''a.img'', ''b.img''])
     = Some (GRUB_ERR_NONE,
         (with_hd two_files_env [''a.img'', ''b.img''])
           \<lparr>open_files := [(2, plain_file 512 0x22), (1, (plain_file 512 0x11)\<lparr>offset := 512\<rparr>)],
            memory := write_bytes (\<lambda>a. 0xAA) 0 (replicate 512 0x11)\<rparr>)
   \<and> write_bytes (\<lambda>a. 0xAA) 0 (replicate 512 0x11) 512 = 0xAA
   \<and> read_chain [1] (push_bit 9 1) (push_bit 9 1) 0 (with_hd small_files_env [''four.img''])
     = Some (0xFFFFFFFFFFFFFC00, 1536,
         (with_hd small_files_env [''four.img''])
           \<lparr>open_files := [(1, (plain_file 2048 0x44)\<lparr>offset := 2048\<rparr>)],
            memory := write_bytes (\<lambda>a. 0xAA) 0 (replicate 1536 0x44)\<rparr>)"
  unfolding hd_disk_a_b
proof (intro conjI)
  show "write_bytes (\<lambda>a. 0xAA) 0 (replicate 512 0x11) 512 = 0xAA"
    by (simp add: write_bytes_def)
qed (simp_all add: grub_loopbackx_read_def with_hd_a_b with_hd_four grub_config_def
      file_at_def file_store_def module_init_def plain_file_def grub_file_read_def
      grub_file_seek_def Let_def)

section \<open>The driver: opening\<close>

lemma size_loop_known:
  assumes "map (file_at s) hs = map Some fs"
    and "\<forall>f\<in>set fs. file_size f \<noteq> GRUB_FILE_SIZE_UNKNOWN"
  shows "size_loop s hs ts alldata
           = Some (ts, alldata + of_nat (sum_list (map (\<lambda>f. unat (file_size f)) fs)))"
  using assms
proof (induction hs arbitrary: fs alldata)
  case Nil
  then show ?case by simp
next
  case (Cons h hs)
  then obtain f fs' where p: "fs = f # fs'" "file_at s h = Some f"
    "map (file_at s) hs = map Some fs'"
    by (cases fs) auto
  have "size_loop s (h # hs) ts alldata = size_loop s hs ts (alldata + file_size f)"
    using p Cons.prems(2) by simp
  also have "\<dots> = Some (ts, alldata + file_size f
                 + of_nat (sum_list (map (\<lambda>f. unat (file_size f)) fs')))"
    using Cons.IH [OF p(3), of "alldata + file_size f"] Cons.prems(2) p(1) by simp
  finally show ?case using p(1) by (simp add: add.assoc)
qed

lemma size_loop_unknown:
  assumes "map (file_at s) pre = map Some pfs"
    and "\<forall>f\<in>set pfs. file_size f \<noteq> GRUB_FILE_SIZE_UNKNOWN"
    and "file_at s h = Some f" "file_size f = GRUB_FILE_SIZE_UNKNOWN"
  shows "size_loop s (pre @ h # post) ts alldata
           = Some (GRUB_DISK_SIZE_UNKNOWN,
                   alldata + of_nat (sum_list (map (\<lambda>f. unat (file_size f)) pfs)))"
  using assms(1,2)
proof (induction pre arbitrary: pfs alldata)
  case Nil
  then show ?case using assms(3,4) by simp
next
  case (Cons k pre)
  then obtain g pfs' where p: "pfs = g # pfs'" "file_at s k = Some g"
    "map (file_at s) pre = map Some pfs'"
    by (cases pfs) auto
  have "size_loop s ((k # pre) @ h # post) ts alldata
          = size_loop s (pre @ h # post) ts (alldata + file_size g)"
    using p Cons.prems(2) by simp
  also have "\<dots> = Some (GRUB_DISK_SIZE_UNKNOWN, alldata + file_size g
                 + of_nat (sum_list (map (\<lambda>f. unat (file_size f)) pfs')))"
    using Cons.IH [OF p(3), of "alldata + file_size g"] Cons.prems(2) p(1) by simp
  finally show ?case using p(1) by (simp add: add.assoc)
qed

lemma sectors_round_up:
  assumes "bits < 64" "L + 2 ^ bits \<le> 2 ^ 64"
  shows "unat ((of_nat L + push_bit bits 1 - 1 :: 64 word) div push_bit bits 1)
           = (L + 2 ^ bits - 1) div 2 ^ bits"
proof -
  have "(2 :: nat) ^ bits < 2 ^ 64"
    using assms(1) by (intro power_strict_increasing) simp_all
  moreover have "(push_bit bits 1 :: 64 word) = of_nat (2 ^ bits)"
    by (simp add: push_bit_eq_mult)
  ultimately have p: "unat (push_bit bits 1 :: 64 word) = 2 ^ bits"
    by (simp add: unat_of_nat del: of_nat_power)
  have "L + 2 ^ bits - 1 < 2 ^ 64"
    using assms(2) by simp
  have "(of_nat (L + 2 ^ bits - 1) :: 64 word) = of_nat (L + 2 ^ bits) - of_nat 1"
    by (rule of_nat_diff) (simp add: Suc_le_eq trans_less_add2)
  then have "(of_nat L + push_bit bits 1 - 1 :: 64 word) = of_nat (L + 2 ^ bits - 1)"
    by (simp add: push_bit_eq_mult)
  then have "unat (of_nat L + push_bit bits 1 - 1 :: 64 word) = L + 2 ^ bits - 1"
    using \<open>L + 2 ^ bits - 1 < 2 ^ 64\<close> by (simp add: unat_of_nat del: of_nat_diff)
  then show ?thesis
    using p by (simp add: unat_div)
qed

lemma round_up_is_ceiling:
  fixes L b :: nat
  assumes "0 < b"
  shows "L \<le> (L + b - 1) div b * b \<and> (L + b - 1) div b * b < L + b"
proof -
  let ?n = "(L + b - 1) div b"
  have "?n * b \<le> L + b - 1"
    by (rule div_times_less_eq_dividend)
  then have up: "?n * b < L + b"
    using assms by linarith
  have "L + b - 1 < ?n * b + b"
    using dividend_less_div_times [OF assms, of "L + b - 1"] by (simp add: add.commute)
  then have "L \<le> ?n * b"
    using assms by linarith
  with up show ?thesis by simp
qed

lemma with_hd_ten_pipe_twenty:
  "with_hd small_files_env [''ten.img'', ''pipe.img'', ''twenty.img'']
     = module_init\<lparr>open_files := [(3, bytes_file twenty_bytes),
                                   (2, (bytes_file ten_bytes)\<lparr>file_size := GRUB_FILE_SIZE_UNKNOWN\<rparr>),
                                   (1, bytes_file ten_bytes)],
         last_id := 1,
         loopback_list := [\<lparr>devname = ''hd'', files = [1, 2, 3], dev_id = 0\<rparr>]\<rparr>"
  by (simp add: with_hd_def grub_cmd_loopbackx_def MAXCHAINFILES_def grub_file_open_def
      module_init_def small_files_env_def fresh_file_def)

lemma with_hd_huge_huge:
  "with_hd small_files_env [''huge.img'', ''huge.img'']
     = module_init\<lparr>open_files := [(2, plain_file (2 ^ 63) 0), (1, plain_file (2 ^ 63) 0)],
         last_id := 1,
         loopback_list := [\<lparr>devname = ''hd'', files = [1, 2], dev_id = 0\<rparr>]\<rparr>"
  by (simp add: with_hd_def grub_cmd_loopbackx_def MAXCHAINFILES_def grub_file_open_def
      module_init_def small_files_env_def fresh_file_def)

text \<open>
  Claim C3, as the code has it. Let \<^verbatim>\<open>grub_loopbackx_open\<close> find the device, and let the
  sector size be \<open>2 ^ GRUB_DISK_SECTOR_BITS\<close> with less than 64 bits.

  When all files of the device have a known size and the sum \<open>L\<close> of the sizes plus the
  sector size is at most \<open>2 ^ 64\<close>, so that the sum in \<^verbatim>\<open>alldata\<close> does not wrap
  around, the call succeeds, leaves the state as it is, and \<^verbatim>\<open>total_sectors\<close> is \<open>L\<close>
  divided by the sector size and rounded up: the one number \<open>n\<close> of sectors with
  \<open>L \<le> n * sector size < L + sector size\<close>.

  When a file of the device has an unknown size, the first such file being \<open>h\<close>, the
  call succeeds with \<^verbatim>\<open>total_sectors = GRUB_DISK_SIZE_UNKNOWN\<close>, and the loop stops at
  \<open>h\<close>: it has added up the sizes of the files before \<open>h\<close> only, and the files behind
  \<open>h\<close> are not looked at (they need not even be open).
\<close>

theorem open_reports_total_sectors:
  assumes dev: "find (\<lambda>dev. devname dev = name) (loopback_list s) = Some dev"
    and bits: "GRUB_DISK_SECTOR_BITS cfg < 64"
  shows "(map (file_at s) (files dev) = map Some fs
            \<and> (\<forall>f\<in>set fs. file_size f \<noteq> GRUB_FILE_SIZE_UNKNOWN)
            \<and> L = sum_list (map (\<lambda>f. unat (file_size f)) fs)
            \<and> L + 2 ^ GRUB_DISK_SECTOR_BITS cfg \<le> 2 ^ 64
          \<longrightarrow> (\<exists>disk'. grub_loopbackx_open cfg name disk s = Some (GRUB_ERR_NONE, s, disk')
                \<and> unat (total_sectors disk')
                    = (L + 2 ^ GRUB_DISK_SECTOR_BITS cfg - 1) div 2 ^ GRUB_DISK_SECTOR_BITS cfg
                \<and> L \<le> unat (total_sectors disk') * 2 ^ GRUB_DISK_SECTOR_BITS cfg
                \<and> unat (total_sectors disk') * 2 ^ GRUB_DISK_SECTOR_BITS cfg
                    < L + 2 ^ GRUB_DISK_SECTOR_BITS cfg))
     \<and> (files dev = pre @ h # post
            \<and> map (file_at s) pre = map Some pfs
            \<and> (\<forall>f\<in>set pfs. file_size f \<noteq> GRUB_FILE_SIZE_UNKNOWN)
            \<and> file_at s h = Some f \<and> file_size f = GRUB_FILE_SIZE_UNKNOWN
          \<longrightarrow> (\<exists>disk'. grub_loopbackx_open cfg name disk s = Some (GRUB_ERR_NONE, s, disk')
                \<and> total_sectors disk' = GRUB_DISK_SIZE_UNKNOWN)
              \<and> size_loop s (files dev) 0 0
                  = Some (GRUB_DISK_SIZE_UNKNOWN,
                          of_nat (sum_list (map (\<lambda>f. unat (file_size f)) pfs))))"
proof (intro conjI impI)
  let ?b = "GRUB_DISK_SECTOR_BITS cfg"
  assume a: "map (file_at s) (files dev) = map Some fs
            \<and> (\<forall>f\<in>set fs. file_size f \<noteq> GRUB_FILE_SIZE_UNKNOWN)
            \<and> L = sum_list (map (\<lambda>f. unat (file_size f)) fs)
            \<and> L + 2 ^ ?b \<le> 2 ^ 64"
  then have loop: "size_loop s (files dev) 0 0 = Some (0, of_nat L)"
    using size_loop_known [of s "files dev" fs 0 0] by simp
  define ts :: "64 word" where "ts = (of_nat L + push_bit ?b 1 - 1) div push_bit ?b 1"
  have u: "unat ts = (L + 2 ^ ?b - 1) div 2 ^ ?b"
    unfolding ts_def using bits a by (intro sectors_round_up) simp_all
  have "grub_loopbackx_open cfg name disk s
          = Some (GRUB_ERR_NONE, s,
                  disk\<lparr>total_sectors := ts,
                       max_agglomerate := push_bit (29 - ?b - GRUB_DISK_CACHE_BITS cfg) 1,
                       disk_id := dev_id dev, data := Some dev\<rparr>)"
    using dev loop
    by (simp add: grub_loopbackx_open_def GRUB_DISK_SIZE_UNKNOWN_def GRUB_DISK_SECTOR_SIZE_def ts_def)
  moreover have "L \<le> unat ts * 2 ^ ?b \<and> unat ts * 2 ^ ?b < L + 2 ^ ?b"
    unfolding u by (rule round_up_is_ceiling) simp
  ultimately show "\<exists>disk'. grub_loopbackx_open cfg name disk s = Some (GRUB_ERR_NONE, s, disk')
                \<and> unat (total_sectors disk') = (L + 2 ^ ?b - 1) div 2 ^ ?b
                \<and> L \<le> unat (total_sectors disk') * 2 ^ ?b
                \<and> unat (total_sectors disk') * 2 ^ ?b < L + 2 ^ ?b"
    using u by simp
next
  assume a: "files dev = pre @ h # post
            \<and> map (file_at s) pre = map Some pfs
            \<and> (\<forall>f\<in>set pfs. file_size f \<noteq> GRUB_FILE_SIZE_UNKNOWN)
            \<and> file_at s h = Some f \<and> file_size f = GRUB_FILE_SIZE_UNKNOWN"
  then have loop: "size_loop s (files dev) 0 0
      = Some (GRUB_DISK_SIZE_UNKNOWN, of_nat (sum_list (map (\<lambda>f. unat (file_size f)) pfs)))"
    using size_loop_unknown [of s pre pfs h f post 0 0] by simp
  then show "size_loop s (files dev) 0 0
      = Some (GRUB_DISK_SIZE_UNKNOWN, of_nat (sum_list (map (\<lambda>f. unat (file_size f)) pfs)))" .
  show "\<exists>disk'. grub_loopbackx_open cfg name disk s = Some (GRUB_ERR_NONE, s, disk')
                \<and> total_sectors disk' = GRUB_DISK_SIZE_UNKNOWN"
    using dev loop by (simp add: grub_loopbackx_open_def)
qed

text \<open>
  The theorem at a device of a file of 10 and a file of 20 bytes (one sector of 512
  bytes), and at a device whose second file of three has an unknown size.
\<close>

theorem open_reports_total_sectors_witness:
  "(\<exists>disk'. grub_loopbackx_open grub_config ''hd'' no_disk
               (with_hd small_files_env [''ten.img'', ''twenty.img''])
             = Some (GRUB_ERR_NONE, with_hd small_files_env [''ten.img'', ''twenty.img''], disk')
          \<and> unat (total_sectors disk') = 1)
   \<and> (\<exists>disk'. grub_loopbackx_open grub_config ''hd'' no_disk
               (with_hd small_files_env [''ten.img'', ''pipe.img'', ''twenty.img''])
             = Some (GRUB_ERR_NONE,
                     with_hd small_files_env [''ten.img'', ''pipe.img'', ''twenty.img''], disk')
          \<and> total_sectors disk' = GRUB_DISK_SIZE_UNKNOWN)
   \<and> size_loop (with_hd small_files_env [''ten.img'', ''pipe.img'', ''twenty.img'']) [1, 2, 3] 0 0
       = Some (GRUB_DISK_SIZE_UNKNOWN, 10)"
proof -
  let ?s = "with_hd small_files_env [''ten.img'', ''twenty.img'']"
  let ?t = "with_hd small_files_env [''ten.img'', ''pipe.img'', ''twenty.img'']"
  let ?d = "\<lparr>devname = ''hd'', files = [1, 2], dev_id = 0\<rparr>"
  let ?e = "\<lparr>devname = ''hd'', files = [1, 2, 3], dev_id = 0\<rparr>"
  let ?pipe = "(bytes_file ten_bytes)\<lparr>file_size := GRUB_FILE_SIZE_UNKNOWN\<rparr>"
  have bits: "GRUB_DISK_SECTOR_BITS grub_config < 64"
    by (simp add: grub_config_def)
  have ds: "find (\<lambda>dev. devname dev = ''hd'') (loopback_list ?s) = Some ?d"
    by (simp add: with_hd_ten_twenty)
  have dt: "find (\<lambda>dev. devname dev = ''hd'') (loopback_list ?t) = Some ?e"
    by (simp add: with_hd_ten_pipe_twenty)
  have known: "map (file_at ?s) (files ?d) = map Some [bytes_file ten_bytes, bytes_file twenty_bytes]
      \<and> (\<forall>f\<in>set [bytes_file ten_bytes, bytes_file twenty_bytes].
            file_size f \<noteq> GRUB_FILE_SIZE_UNKNOWN)
      \<and> 30 = sum_list (map (\<lambda>f. unat (file_size f)) [bytes_file ten_bytes, bytes_file twenty_bytes])
      \<and> 30 + 2 ^ GRUB_DISK_SECTOR_BITS grub_config \<le> (2 :: nat) ^ 64"
    by (simp add: with_hd_ten_twenty file_at_def bytes_file_def ten_bytes_def twenty_bytes_def
        GRUB_FILE_SIZE_UNKNOWN_def grub_config_def)
  have unknown: "files ?e = [1] @ 2 # [3]
      \<and> map (file_at ?t) [1] = map Some [bytes_file ten_bytes]
      \<and> (\<forall>f\<in>set [bytes_file ten_bytes]. file_size f \<noteq> GRUB_FILE_SIZE_UNKNOWN)
      \<and> file_at ?t 2 = Some ?pipe \<and> file_size ?pipe = GRUB_FILE_SIZE_UNKNOWN"
    by (simp add: with_hd_ten_pipe_twenty file_at_def bytes_file_def ten_bytes_def
        GRUB_FILE_SIZE_UNKNOWN_def)
  from open_reports_total_sectors [OF ds bits,
      where fs = "[bytes_file ten_bytes, bytes_file twenty_bytes]" and L = 30 and disk = no_disk,
      THEN conjunct1, rule_format, OF known]
  have a: "\<exists>disk'. grub_loopbackx_open grub_config ''hd'' no_disk ?s = Some (GRUB_ERR_NONE, ?s, disk')
          \<and> unat (total_sectors disk') = 1"
    by (auto simp: grub_config_def)
  from open_reports_total_sectors [OF dt bits,
      where pre = "[1]" and h = 2 and post = "[3]" and pfs = "[bytes_file ten_bytes]"
        and f = ?pipe and disk = no_disk,
      THEN conjunct2, rule_format, OF unknown]
  have b: "(\<exists>disk'. grub_loopbackx_open grub_config ''hd'' no_disk ?t = Some (GRUB_ERR_NONE, ?t, disk')
          \<and> total_sectors disk' = GRUB_DISK_SIZE_UNKNOWN)
      \<and> size_loop ?t [1, 2, 3] 0 0 = Some (GRUB_DISK_SIZE_UNKNOWN, 10)"
    by (simp add: bytes_file_def ten_bytes_def)
  from a b show ?thesis by blast
qed

text \<open>
  Against claim C3 as stated: for two files of \<open>2 ^ 63\<close> bytes each, both of known
  size, the sum wraps around to 0 and \<^verbatim>\<open>total_sectors\<close> is 0, where the sum divided by
  the sector size is \<open>2 ^ 55\<close>.
\<close>

theorem total_sectors_wraps_for_huge_files:
  "map_option (\<lambda>(e, s', disk'). (e, total_sectors disk'))
     (grub_loopbackx_open grub_config ''hd'' no_disk
        (with_hd small_files_env [''huge.img'', ''huge.img'']))
     = Some (GRUB_ERR_NONE, 0)
   \<and> map (\<lambda>(h, f). file_size f) (open_files (with_hd small_files_env [''huge.img'', ''huge.img'']))
     = [2 ^ 63, 2 ^ 63]
   \<and> ((2 ^ 63 + 2 ^ 63 + 2 ^ 9 - 1) div 2 ^ 9 :: nat) = 2 ^ 55"
  by (simp add: with_hd_huge_huge grub_loopbackx_open_def module_init_def file_at_def
      plain_file_def GRUB_FILE_SIZE_UNKNOWN_def GRUB_DISK_SIZE_UNKNOWN_def no_disk_def grub_config_def
      GRUB_DISK_SECTOR_SIZE_def)

end
